theory Spec2Isabelle
  imports Complex_Main "HOL-Library.Word"
begin

section \<open>Data model of the live audio sessions\<close>

text \<open>
  The repository holds two copies of a live duplex audio session: the component
  \<open>AudioTranscriber\<close> and the deep-dive part of \<open>VideoProcessor\<close>. Both keep
  their resources in React refs, their visible state in React state cells, and react to
  the callbacks \<open>onopen\<close>, \<open>onmessage\<close>, \<open>onerror\<close>, \<open>onclose\<close> of the
  connection. The model keeps the refs and state cells as record fields and turns every
  callback into a function from state to state. Calls into the browser (starting and
  stopping a buffer source, stopping a track, closing a context, writing local storage)
  are appended to a log of effects, in the order the source issues them.
\<close>

datatype speaker = User | Model

text \<open>
  The values a turn's \<open>text\<close> can take. The type says \<open>string\<close>, but the field is
  filled from the \<open>text\<close> of a transcription object, which may be missing: the field
  is then \<open>undefined\<close>, and \<open>undefined + undefined\<close> is the number \<open>NaN\<close>.
\<close>

datatype js_text = Text string | Undefined | NaN

text \<open>
  JavaScript's \<open>+\<close> on a turn's text and the \<open>text\<close> of a transcription
  (\<open>None\<close> where it is \<open>undefined\<close>): concatenation once one side is a string, the
  other side converted to \<open>"undefined"\<close> or \<open>"NaN"\<close>; a number otherwise.
\<close>

fun js_plus :: "js_text \<Rightarrow> string option \<Rightarrow> js_text" where
  "js_plus (Text a) (Some b) = Text (a @ b)"
| "js_plus (Text a) None = Text (a @ ''undefined'')"
| "js_plus Undefined (Some b) = Text (''undefined'' @ b)"
| "js_plus Undefined None = NaN"
| "js_plus NaN (Some b) = Text (''NaN'' @ b)"
| "js_plus NaN None = NaN"

fun text_value :: "string option \<Rightarrow> js_text" where
  "text_value (Some t) = Text t"
| "text_value None = Undefined"

text \<open>\<open>ConversationTurn\<close> of \<open>AudioTranscriber\<close>: speaker, text, isFinal.\<close>

record ConversationTurn =
  speaker :: speaker
  turn_text :: js_text
  isFinal :: bool

text \<open>\<open>ConversationTurn\<close> of \<open>VideoProcessor\<close>: the deep dive has no \<open>isFinal\<close>.\<close>

record DeepDiveTurn =
  dd_speaker :: speaker
  dd_text :: js_text

record AudioHistoryItem =
  item_id :: string
  timestamp :: nat
  item_conversation :: "ConversationTurn list"

text \<open>
  One entry of \<open>toolCall.functionCalls\<close>. The arguments are a JSON object; the report
  has string properties only, so an object is a list of property names and values.
\<close>

type_synonym json_object = "(string \<times> string) list"

record FunctionCall =
  fc_name :: string
  fc_args :: "json_object option"

text \<open>
  \<open>LiveServerMessage\<close>, reduced to the paths the two handlers read. Each field is the
  value of one optional chain of the source, \<open>None\<close> or \<open>False\<close> where the chain is
  undefined:
  \<^item> \<open>inputTranscription\<close>, \<open>outputTranscription\<close>: the objects
    \<open>serverContent.inputTranscription\<close> and \<open>serverContent.outputTranscription\<close>,
    each with its optional \<open>text\<close>; a message may carry both;
  \<^item> \<open>modelAudio\<close>: \<open>serverContent?.modelTurn?.parts[0]?.inlineData?.data\<close>, the
    base64 text of an audio chunk;
  \<^item> \<open>interrupted\<close>, \<open>turnComplete\<close>: the flags of \<open>serverContent\<close>;
  \<^item> \<open>functionCalls\<close>: \<open>toolCall?.functionCalls\<close>.
\<close>

record Transcription =
  transcription_text :: "string option"

record LiveServerMessage =
  inputTranscription :: "Transcription option"
  outputTranscription :: "Transcription option"
  modelAudio :: "string option"
  interrupted :: bool
  turnComplete :: bool
  functionCalls :: "FunctionCall list option"

datatype AudioContextState = Suspended | Running | Closed

text \<open>
  Calls into the browser and the connection. A buffer source is named by the number
  of its creation; \<open>SourceStart h t d\<close> is \<open>source.start(t)\<close> on a source whose buffer
  lasts \<open>d\<close> seconds, so it plays during \<open>[t, t + d)\<close>.
\<close>

datatype effect =
    SourceStart nat real real
  | SetAdd nat
  | SourceStop nat
  | SetClear
  | TrackStop nat
  | ScriptProcessorDisconnect
  | MediaStreamSourceDisconnect
  | InputContextClose
  | OutputContextClose
  | SessionCloseRequested
  | ConsoleError

text \<open>
  The refs both components declare under the same names. \<open>audioSourcesRef\<close> is a
  JavaScript \<open>Set\<close>: it iterates in insertion order and holds no element twice, so it
  is a list here. \<open>mediaStreamRef\<close> holds the tracks of the captured stream.
  \<open>sourcesCreated\<close> counts \<open>createBufferSource\<close> calls and gives each new source its
  identity; \<open>effects\<close> is the log.
\<close>

record live_refs =
  sessionPromiseRef :: "unit option"
  inputAudioContextRef :: "AudioContextState option"
  outputAudioContextRef :: "AudioContextState option"
  scriptProcessorRef :: "unit option"
  mediaStreamSourceRef :: "unit option"
  mediaStreamRef :: "nat list option"
  nextStartTimeRef :: real
  audioSourcesRef :: "nat list"
  sourcesCreated :: nat
  effects :: "effect list"

record at_state = live_refs +
  isSessionActive :: bool
  conversation :: "ConversationTurn list"
  error :: "string option"
  statusMessage :: string
  history :: "AudioHistoryItem list"
  storage :: "string option"

datatype DeepDiveStatus = Idle | Active | GeneratingReport | Complete

record dd_state = live_refs +
  deepDiveStatus :: DeepDiveStatus
  deepDiveConversation :: "DeepDiveTurn list"
  learningReport :: "json_object option"
  deepDiveError :: "string option"

datatype js_error = TypeError

definition log_effects :: "effect list \<Rightarrow> 'a live_refs_scheme \<Rightarrow> 'a live_refs_scheme" where
  "log_effects es s = s\<lparr>effects := effects s @ es\<rparr>"

section \<open>Transcript assembly (AudioTranscriber)\<close>

text \<open>
  The updater passed to \<open>setConversation\<close> for a transcription fragment: copy the
  list, look at the last turn; append the text to it when it exists, has the same speaker
  and is not final, push a new turn otherwise. (The source appends in place to the turn
  object it shares with the previous list; the previous list is dropped by React, and the
  model returns the new list only.)
\<close>

definition applyTranscription ::
  "speaker \<Rightarrow> string option \<Rightarrow> ConversationTurn list \<Rightarrow> ConversationTurn list" where
  "applyTranscription sp transcription prev =
     (if prev \<noteq> [] \<and> speaker (last prev) = sp \<and> \<not> isFinal (last prev)
      then butlast prev
           @ [(last prev)\<lparr>turn_text := js_plus (turn_text (last prev)) transcription\<rparr>]
      else prev @ [\<lparr>speaker = sp, turn_text = text_value transcription, isFinal = False\<rparr>])"

text \<open>The updater for \<open>turnComplete\<close>: every turn is copied with \<open>isFinal: true\<close>.\<close>

definition markAllFinal :: "ConversationTurn list \<Rightarrow> ConversationTurn list" where
  "markAllFinal prev = map (\<lambda>turn. turn\<lparr>isFinal := True\<rparr>) prev"

section \<open>Audio output scheduling (both components)\<close>

text \<open>
  The audio branch of \<open>onmessage\<close>, the same text in both components:
  \<^verbatim>\<open>
  nextStartTimeRef.current = Math.max(nextStartTimeRef.current, ctx.currentTime);
  const buffer = await decodeAudioData(decode(base64Audio), ctx, 24000, 1);
  const source = ctx.createBufferSource();
  ...
  source.start(nextStartTimeRef.current);
  nextStartTimeRef.current += buffer.duration;
  audioSourcesRef.current.add(source);
  \<close>
  \<open>decodeAudioData\<close> lives in \<open>utils/audioUtils\<close>, which is not among the sources;
  the duration of the decoded buffer is the parameter \<open>duration\<close>, and \<open>currentTime\<close>
  is the clock of the output context. Times are JavaScript numbers, taken as reals.
  \<open>enqueue_begin\<close> is the line before the \<open>await\<close>, \<open>enqueue_finish\<close> the lines
  after it, which read \<open>nextStartTimeRef\<close> anew; \<open>enqueue\<close> is one after the other.
\<close>

definition set_add :: "nat \<Rightarrow> nat list \<Rightarrow> nat list" where
  "set_add h hs = (if h \<in> set hs then hs else hs @ [h])"

definition enqueue_begin :: "real \<Rightarrow> 'a live_refs_scheme \<Rightarrow> 'a live_refs_scheme" where
  "enqueue_begin currentTime s =
     s\<lparr>nextStartTimeRef := max (nextStartTimeRef s) currentTime\<rparr>"

definition enqueue_finish :: "real \<Rightarrow> 'a live_refs_scheme \<Rightarrow> 'a live_refs_scheme" where
  "enqueue_finish duration s =
     (let source = sourcesCreated s
      in s\<lparr>nextStartTimeRef := nextStartTimeRef s + duration,
            audioSourcesRef := set_add source (audioSourcesRef s),
            sourcesCreated := Suc source,
            effects := effects s
              @ [SourceStart source (nextStartTimeRef s) duration, SetAdd source]\<rparr>)"

definition enqueue :: "real \<Rightarrow> real \<Rightarrow> 'a live_refs_scheme \<Rightarrow> 'a live_refs_scheme" where
  "enqueue currentTime duration s = enqueue_finish duration (enqueue_begin currentTime s)"

text \<open>
  The two halves of the audio branch, before and after the \<open>await\<close>, as steps that
  the halves of other messages' audio branches may come between.
\<close>

datatype enqueue_step = Begin real | Finish real

fun enqueue_steps :: "enqueue_step list \<Rightarrow> 'a live_refs_scheme \<Rightarrow> 'a live_refs_scheme" where
  "enqueue_steps [] s = s"
| "enqueue_steps (Begin currentTime # rest) s = enqueue_steps rest (enqueue_begin currentTime s)"
| "enqueue_steps (Finish duration # rest) s = enqueue_steps rest (enqueue_finish duration s)"

text \<open>The listener for \<open>ended\<close> that \<open>enqueue\<close> puts on each source.\<close>

definition onended :: "nat \<Rightarrow> 'a live_refs_scheme \<Rightarrow> 'a live_refs_scheme" where
  "onended source s = s\<lparr>audioSourcesRef := removeAll source (audioSourcesRef s)\<rparr>"

text \<open>The \<open>interrupted\<close> branch of \<open>onmessage\<close> in \<open>AudioTranscriber\<close>.\<close>

definition interrupt :: "'a live_refs_scheme \<Rightarrow> 'a live_refs_scheme" where
  "interrupt s =
     s\<lparr>audioSourcesRef := [],
       nextStartTimeRef := 0,
       effects := effects s @ map SourceStop (audioSourcesRef s) @ [SetClear]\<rparr>"

text \<open>The audio branch with its guard \<open>base64Audio && outputAudioContextRef.current\<close>.\<close>

definition audio_branch ::
  "(string \<Rightarrow> real) \<Rightarrow> real \<Rightarrow> LiveServerMessage \<Rightarrow> 'a live_refs_scheme \<Rightarrow> 'a live_refs_scheme" where
  "audio_branch bufferDuration currentTime message s =
     (case modelAudio message of
        None \<Rightarrow> s
      | Some base64Audio \<Rightarrow>
          if base64Audio \<noteq> [] \<and> outputAudioContextRef s \<noteq> None
          then enqueue currentTime (bufferDuration base64Audio) s
          else s)"

section \<open>The message handler of AudioTranscriber\<close>

text \<open>
  The transcription branch is entered when either transcription object is present.
  \<open>isInput\<close> is whether the input one is; the text and the speaker are taken from the
  input object then, and from the output object otherwise, so that an output object
  arriving together with an input object is not read.
\<close>

definition transcription_branch :: "LiveServerMessage \<Rightarrow> at_state \<Rightarrow> at_state" where
  "transcription_branch message s =
     (case inputTranscription message of
        Some input \<Rightarrow>
          s\<lparr>conversation :=
              applyTranscription User (transcription_text input) (conversation s)\<rparr>
      | None \<Rightarrow>
          (case outputTranscription message of
             Some output \<Rightarrow>
               s\<lparr>conversation :=
                   applyTranscription Model (transcription_text output) (conversation s)\<rparr>
           | None \<Rightarrow> s))"

text \<open>
  \<open>onmessage\<close>: transcription, audio, interruption, turn completion, in this order.
  The handler of one message is taken to run to its end before the next message is
  handled.
\<close>

definition at_onmessage ::
  "(string \<Rightarrow> real) \<Rightarrow> real \<Rightarrow> LiveServerMessage \<Rightarrow> at_state \<Rightarrow> at_state" where
  "at_onmessage bufferDuration currentTime message s =
     (let s1 = transcription_branch message s;
          s2 = audio_branch bufferDuration currentTime message s1;
          s3 = (if interrupted message then interrupt s2 else s2)
      in if turnComplete message
         then s3\<lparr>conversation := markAllFinal (conversation s3)\<rparr>
         else s3)"

subsection \<open>Runs, fragments, segments: the notions the properties are stated with\<close>

text \<open>
  A run of the handler over the messages of a session, each with the reading of the
  output context's clock at its arrival.
\<close>

fun at_run ::
  "(string \<Rightarrow> real) \<Rightarrow> (real \<times> LiveServerMessage) list \<Rightarrow> at_state \<Rightarrow> at_state" where
  "at_run bufferDuration [] s = s"
| "at_run bufferDuration ((currentTime, message) # rest) s =
     at_run bufferDuration rest (at_onmessage bufferDuration currentTime message s)"

text \<open>
  A transcription fragment \<open>(speaker, text, turnComplete)\<close> as the message that
  carries it: the text under the speaker's transcription, and the flag.
\<close>

definition fragment :: "speaker \<Rightarrow> string \<Rightarrow> bool \<Rightarrow> LiveServerMessage" where
  "fragment sp t tc =
     \<lparr>inputTranscription =
        (if sp = User then Some \<lparr>transcription_text = Some t\<rparr> else None),
      outputTranscription =
        (if sp = Model then Some \<lparr>transcription_text = Some t\<rparr> else None),
      modelAudio = None, interrupted = False, turnComplete = tc,
      functionCalls = None\<rparr>"

text \<open>Adjacent turns differ in speaker, or the earlier one is final.\<close>

fun well_shaped :: "ConversationTurn list \<Rightarrow> bool" where
  "well_shaped [] = True"
| "well_shaped [a] = True"
| "well_shaped (a # b # ts) = ((speaker a \<noteq> speaker b \<or> isFinal a) \<and> well_shaped (b # ts))"

text \<open>
  A run of enqueue operations, each with the clock reading at its start and the
  duration of its buffer; the segments a log of effects has scheduled, as pairs of start
  and duration; and whether two segments \<open>[t, t + d)\<close> share a moment.
\<close>

fun enqueues :: "(real \<times> real) list \<Rightarrow> 'a live_refs_scheme \<Rightarrow> 'a live_refs_scheme" where
  "enqueues [] s = s"
| "enqueues ((currentTime, duration) # rest) s = enqueues rest (enqueue currentTime duration s)"

fun segments :: "effect list \<Rightarrow> (real \<times> real) list" where
  "segments [] = []"
| "segments (SourceStart h t d # es) = (t, d) # segments es"
| "segments (e # es) = segments es"

definition overlapping :: "real \<times> real \<Rightarrow> real \<times> real \<Rightarrow> bool" where
  "overlapping a b = (max (fst a) (fst b) < min (fst a + snd a) (fst b + snd b))"

fun no_overlaps :: "(real \<times> real) list \<Rightarrow> bool" where
  "no_overlaps [] = True"
| "no_overlaps (x # xs) = ((\<forall>y \<in> set xs. \<not> overlapping x y) \<and> no_overlaps xs)"

text \<open>A message that carries an audio chunk and nothing else.\<close>

definition audio_message :: "string \<Rightarrow> LiveServerMessage" where
  "audio_message base64Audio =
     \<lparr>inputTranscription = None, outputTranscription = None, modelAudio = Some base64Audio,
      interrupted = False, turnComplete = False, functionCalls = None\<rparr>"

section \<open>Session lifecycle and history of AudioTranscriber\<close>

text \<open>
  The state of a freshly mounted component: the initial values of its \<open>useState\<close>
  and \<open>useRef\<close> calls. \<open>stored\<close> is what local storage holds under
  \<open>eduverse_audio_history\<close>.
\<close>

definition at_initial :: "string option \<Rightarrow> at_state" where
  "at_initial stored =
     \<lparr>sessionPromiseRef = None, inputAudioContextRef = None, outputAudioContextRef = None,
      scriptProcessorRef = None, mediaStreamSourceRef = None, mediaStreamRef = None,
      nextStartTimeRef = 0, audioSourcesRef = [], sourcesCreated = 0, effects = [],
      isSessionActive = False, conversation = [], error = None,
      statusMessage = ''Ready to connect'', history = [], storage = stored\<rparr>"

text \<open>
  The mount effect that loads the history. \<open>parse\<close> stands for \<open>JSON.parse\<close>:
  \<open>None\<close> where it throws a \<open>SyntaxError\<close>, which the source catches and logs.
  (\<open>JSON.parse\<close> returns \<open>any\<close>; the source passes the value to \<open>setHistory\<close>
  unchecked, and the model takes it to be a list of items.)
\<close>

definition loadHistory ::
  "(string \<Rightarrow> AudioHistoryItem list option) \<Rightarrow> at_state \<Rightarrow> at_state" where
  "loadHistory parse s =
     (case storage s of
        None \<Rightarrow> s
      | Some stored \<Rightarrow>
          if stored = [] then s
          else (case parse stored of
                  Some items \<Rightarrow> s\<lparr>history := items\<rparr>
                | None \<Rightarrow> log_effects [ConsoleError] s))"

text \<open>
  The same effect in \<open>VideoProcessor\<close>, under \<open>eduverse_video_history\<close>; it
  touches only the \<open>history\<close> cell, whose items (\<open>VideoHistoryItem\<close>) are left
  abstract.
\<close>

definition loadVideoHistory ::
  "(string \<Rightarrow> 'item list option) \<Rightarrow> string option \<Rightarrow> 'item list \<Rightarrow> 'item list" where
  "loadVideoHistory parse storedHistory history0 =
     (case storedHistory of
        None \<Rightarrow> history0
      | Some stored \<Rightarrow>
          if stored = [] then history0
          else (case parse stored of
                  Some items \<Rightarrow> items
                | None \<Rightarrow> history0))"

text \<open>
  \<open>saveToHistory\<close>. It reads \<open>history\<close> from the render that created it
  (\<open>renderHistory\<close>); \<open>idNow\<close> and \<open>tsNow\<close> are the two readings of
  \<open>Date.now()\<close>, \<open>toString\<close> and \<open>stringify\<close> stand for \<open>Number.toString\<close> and
  \<open>JSON.stringify\<close>.
\<close>

definition saveToHistory ::
  "(nat \<Rightarrow> string) \<Rightarrow> (AudioHistoryItem list \<Rightarrow> string) \<Rightarrow> nat \<Rightarrow> nat \<Rightarrow>
     AudioHistoryItem list \<Rightarrow> ConversationTurn list \<Rightarrow> at_state \<Rightarrow> at_state" where
  "saveToHistory toString stringify idNow tsNow renderHistory conv s =
     (if length conv = 0 then s
      else
        let newItem = \<lparr>item_id = toString idNow, timestamp = tsNow, item_conversation = conv\<rparr>;
            updated = take 10 (newItem # renderHistory)
        in s\<lparr>history := updated, storage := Some (stringify updated)\<rparr>)"

definition clearHistory :: "at_state \<Rightarrow> at_state" where
  "clearHistory s = s\<lparr>history := [], storage := None\<rparr>"

text \<open>
  The release of the local resources, the same five lines in \<open>handleSessionEnded\<close>
  and \<open>handleDeepDiveSessionEnded\<close>: each one guarded by its own ref, none of the
  refs reset. \<open>close()\<close> is taken to have closed the context when the next handler
  reads its \<open>state\<close>.
\<close>

definition release_resources :: "'a live_refs_scheme \<Rightarrow> 'a live_refs_scheme" where
  "release_resources s =
     (let s1 = (case mediaStreamRef s of
                  Some tracks \<Rightarrow> log_effects (map TrackStop tracks) s
                | None \<Rightarrow> s);
          s2 = (if scriptProcessorRef s1 \<noteq> None
                then log_effects [ScriptProcessorDisconnect] s1 else s1);
          s3 = (if mediaStreamSourceRef s2 \<noteq> None
                then log_effects [MediaStreamSourceDisconnect] s2 else s2);
          s4 = (case inputAudioContextRef s3 of
                  Some st \<Rightarrow>
                    if st \<noteq> Closed
                    then log_effects [InputContextClose] (s3\<lparr>inputAudioContextRef := Some Closed\<rparr>)
                    else s3
                | None \<Rightarrow> s3)
      in (case outputAudioContextRef s4 of
            Some st \<Rightarrow>
              if st \<noteq> Closed
              then log_effects [OutputContextClose] (s4\<lparr>outputAudioContextRef := Some Closed\<rparr>)
              else s4
          | None \<Rightarrow> s4))"

text \<open>
  \<open>handleSessionEnded\<close>, called by \<open>onclose\<close> and \<open>onerror\<close>. The callbacks are
  created inside \<open>startSession\<close>, so the \<open>conversation\<close> and \<open>history\<close> they read
  are the constants of the render in which the session was started:
  \<open>renderConversation\<close> and \<open>renderHistory\<close>.
\<close>

definition handleSessionEnded ::
  "(nat \<Rightarrow> string) \<Rightarrow> (AudioHistoryItem list \<Rightarrow> string) \<Rightarrow> nat \<Rightarrow> nat \<Rightarrow>
     AudioHistoryItem list \<Rightarrow> ConversationTurn list \<Rightarrow> at_state \<Rightarrow> at_state" where
  "handleSessionEnded toString stringify idNow tsNow renderHistory renderConversation s =
     (let s1 = release_resources s;
          s2 = (if sessionPromiseRef s1 \<noteq> None \<and> length renderConversation > 0
                then saveToHistory toString stringify idNow tsNow renderHistory renderConversation s1
                else s1)
      in s2\<lparr>sessionPromiseRef := None, isSessionActive := False,
             statusMessage := ''Session ended''\<rparr>)"

text \<open>
  \<open>startSession\<close> up to the call of \<open>ai.live.connect\<close>. \<open>userMedia\<close> is the
  outcome of \<open>getUserMedia\<close>: the tracks of the stream, or \<open>None\<close> where it throws.
\<close>

definition startSession :: "nat list option \<Rightarrow> at_state \<Rightarrow> at_state" where
  "startSession userMedia s =
     (let s1 = s\<lparr>error := None, conversation := [], isSessionActive := True,
                  statusMessage := ''Connecting...''\<rparr>
      in case userMedia of
           None \<Rightarrow> s1\<lparr>error := Some ''mic_permission'', isSessionActive := False,
                       statusMessage := ''Error connecting''\<rparr>
         | Some tracks \<Rightarrow>
             s1\<lparr>mediaStreamRef := Some tracks, outputAudioContextRef := Some Running,
                 nextStartTimeRef := 0, audioSourcesRef := [],
                 sessionPromiseRef := Some (),
                 effects := effects s1 @ [SetClear]\<rparr>)"

definition at_onopen :: "at_state \<Rightarrow> at_state" where
  "at_onopen s =
     s\<lparr>statusMessage := ''Listening...'', inputAudioContextRef := Some Running,
       mediaStreamSourceRef := Some (), scriptProcessorRef := Some ()\<rparr>"

text \<open>\<open>stopSession\<close>: one guarded line, the request to close the connection.\<close>

definition stopSession :: "at_state \<Rightarrow> at_state" where
  "stopSession s =
     (if sessionPromiseRef s \<noteq> None then log_effects [SessionCloseRequested] s else s)"

section \<open>The deep-dive session of VideoProcessor\<close>

definition dd_initial :: dd_state where
  "dd_initial =
     \<lparr>sessionPromiseRef = None, inputAudioContextRef = None, outputAudioContextRef = None,
      scriptProcessorRef = None, mediaStreamSourceRef = None, mediaStreamRef = None,
      nextStartTimeRef = 0, audioSourcesRef = [], sourcesCreated = 0, effects = [],
      deepDiveStatus = Idle, deepDiveConversation = [], learningReport = None,
      deepDiveError = None\<rparr>"

text \<open>
  \<open>handleDeepDiveSessionEnded\<close> is a \<open>useCallback\<close> over \<open>deepDiveStatus\<close>, and
  \<open>stopDeepDive\<close> one over \<open>handleDeepDiveSessionEnded\<close>. The connection's callbacks
  are created inside \<open>startDeepDive\<close> and call the two functions of the render in which
  \<open>startDeepDive\<close> was created; the \<open>deepDiveStatus\<close> those read is the constant of
  that render, \<open>renderStatus\<close>, not the state cell. The button \<open>End Call\<close> calls the
  \<open>stopDeepDive\<close> of the current render, where \<open>renderStatus\<close> is the cell's value.
\<close>

definition handleDeepDiveSessionEnded :: "DeepDiveStatus \<Rightarrow> dd_state \<Rightarrow> dd_state" where
  "handleDeepDiveSessionEnded renderStatus s =
     (let s1 = (release_resources s)\<lparr>sessionPromiseRef := None\<rparr>
      in if renderStatus \<noteq> Complete then s1\<lparr>deepDiveStatus := Idle\<rparr> else s1)"

definition stopDeepDive :: "DeepDiveStatus \<Rightarrow> dd_state \<Rightarrow> dd_state" where
  "stopDeepDive renderStatus s =
     handleDeepDiveSessionEnded renderStatus
       (if sessionPromiseRef s \<noteq> None then log_effects [SessionCloseRequested] s else s)"

text \<open>
  \<open>startDeepDive\<close> up to the call of \<open>ai.live.connect\<close>; \<open>hasAnalysisResult\<close> is
  the guard \<open>if (!analysisResult) return\<close>. The second component of the result is the
  \<open>renderStatus\<close> of the callbacks it creates: the status the click found.
\<close>

definition startDeepDive ::
  "bool \<Rightarrow> nat list option \<Rightarrow> dd_state \<Rightarrow> dd_state \<times> DeepDiveStatus" where
  "startDeepDive hasAnalysisResult userMedia s =
     (if \<not> hasAnalysisResult then (s, deepDiveStatus s)
      else
        let s1 = s\<lparr>deepDiveError := None, deepDiveConversation := [], learningReport := None,
                    deepDiveStatus := Active\<rparr>
        in (case userMedia of
              None \<Rightarrow> s1\<lparr>deepDiveError := Some ''mic_permission'', deepDiveStatus := Idle\<rparr>
            | Some tracks \<Rightarrow>
                s1\<lparr>mediaStreamRef := Some tracks, outputAudioContextRef := Some Running,
                    nextStartTimeRef := 0, audioSourcesRef := [],
                    sessionPromiseRef := Some (),
                    effects := effects s1 @ [SetClear]\<rparr>,
            deepDiveStatus s))"

definition dd_onopen :: "dd_state \<Rightarrow> dd_state" where
  "dd_onopen s =
     s\<lparr>inputAudioContextRef := Some Running, mediaStreamSourceRef := Some (),
       scriptProcessorRef := Some ()\<rparr>"

text \<open>
  The two transcription updaters of the deep dive: extend the last turn when it is the
  same speaker's, push a new turn otherwise.
\<close>

definition dd_applyTranscription ::
  "speaker \<Rightarrow> string option \<Rightarrow> DeepDiveTurn list \<Rightarrow> DeepDiveTurn list" where
  "dd_applyTranscription sp t prev =
     (if prev \<noteq> [] \<and> dd_speaker (last prev) = sp
      then butlast prev @ [(last prev)\<lparr>dd_text := js_plus (dd_text (last prev)) t\<rparr>]
      else prev @ [\<lparr>dd_speaker = sp, dd_text = text_value t\<rparr>])"

text \<open>
  The tool-call branch. \<open>functionCalls[0]\<close> of an empty array is \<open>undefined\<close>, and
  reading \<open>fc.name\<close> then throws inside the handler.
\<close>

definition toolCall_branch ::
  "DeepDiveStatus \<Rightarrow> LiveServerMessage \<Rightarrow> dd_state \<Rightarrow> dd_state \<times> js_error option" where
  "toolCall_branch renderStatus message s =
     (case functionCalls message of
        None \<Rightarrow> (s, None)
      | Some [] \<Rightarrow> (s, Some TypeError)
      | Some (fc # _) \<Rightarrow>
          if fc_name fc = ''generateLearningReport'' \<and> fc_args fc \<noteq> None
          then (stopDeepDive renderStatus
                  (s\<lparr>learningReport := fc_args fc, deepDiveStatus := Complete\<rparr>), None)
          else (s, None))"

text \<open>
  \<open>onmessage\<close> of the deep dive: input transcription, output transcription, audio,
  tool call. It has no branch for \<open>interrupted\<close> and none for \<open>turnComplete\<close>.
\<close>

definition dd_onmessage ::
  "DeepDiveStatus \<Rightarrow> (string \<Rightarrow> real) \<Rightarrow> real \<Rightarrow> LiveServerMessage \<Rightarrow> dd_state
     \<Rightarrow> dd_state \<times> js_error option" where
  "dd_onmessage renderStatus bufferDuration currentTime message s =
     (let s1 = (case inputTranscription message of
                  Some input \<Rightarrow>
                    s\<lparr>deepDiveConversation :=
                        dd_applyTranscription User (transcription_text input)
                          (deepDiveConversation s)\<rparr>
                | None \<Rightarrow> s);
          s2 = (case outputTranscription message of
                  Some output \<Rightarrow>
                    s1\<lparr>deepDiveConversation :=
                        dd_applyTranscription Model (transcription_text output)
                          (deepDiveConversation s1)\<rparr>
                | None \<Rightarrow> s1);
          s3 = audio_branch bufferDuration currentTime message s2
      in toolCall_branch renderStatus message s3)"

section \<open>PCM16 encoding of captured samples (both components)\<close>

text \<open>
  \<open>onaudioprocess\<close> stores \<open>inputData[i] * 32768\<close> into an \<open>Int16Array\<close>. The
  store converts the number as ECMAScript's \<open>ToInt16\<close> does: truncate towards zero,
  reduce modulo \<open>2^16\<close>, read the 16 bits as two's complement. A sample is a 32-bit
  float, a real number here; the product with \<open>32768\<close> is exact. (\<open>NaN\<close> and the
  infinities, which the store turns into 0, are not among the reals.)
\<close>

definition js_truncate :: "real \<Rightarrow> int" where
  "js_truncate x = (if x < 0 then \<lceil>x\<rceil> else \<lfloor>x\<rfloor>)"

definition ToInt16 :: "real \<Rightarrow> 16 word" where
  "ToInt16 x = word_of_int (js_truncate x)"

definition float_to_int16 :: "real list \<Rightarrow> 16 word list" where
  "float_to_int16 inputData = map (\<lambda>sample. ToInt16 (sample * 32768)) inputData"

text \<open>
  \<open>new Uint8Array(int16.buffer)\<close>: the bytes of the array in the platform's byte
  order, little-endian on the platforms browsers run on: low byte first.
\<close>

definition int16_bytes :: "16 word \<Rightarrow> 8 word list" where
  "int16_bytes w = [ucast w, ucast (drop_bit 8 w)]"

definition uint8_view :: "16 word list \<Rightarrow> 8 word list" where
  "uint8_view int16 = concat (map int16_bytes int16)"

section \<open>Messages and reachable states used as concrete inputs\<close>

text \<open>A message that carries the interruption signal and nothing else.\<close>

definition interruption_message :: LiveServerMessage where
  "interruption_message =
     \<lparr>inputTranscription = None, outputTranscription = None, modelAudio = None,
      interrupted = True, turnComplete = False, functionCalls = None\<rparr>"

text \<open>
  A message that carries a transcription of the user (\<open>Hi\<close>) and one of the model
  (\<open>Hello\<close>), and a message whose input transcription has no \<open>text\<close>.
\<close>

definition both_fragments_message :: LiveServerMessage where
  "both_fragments_message =
     \<lparr>inputTranscription = Some \<lparr>transcription_text = Some ''Hi''\<rparr>,
      outputTranscription = Some \<lparr>transcription_text = Some ''Hello''\<rparr>,
      modelAudio = None, interrupted = False, turnComplete = False, functionCalls = None\<rparr>"

definition textless_message :: LiveServerMessage where
  "textless_message =
     \<lparr>inputTranscription = Some \<lparr>transcription_text = None\<rparr>,
      outputTranscription = None,
      modelAudio = None, interrupted = False, turnComplete = False, functionCalls = None\<rparr>"

text \<open>A message whose tool call is \<open>generateLearningReport\<close> with arguments.\<close>

definition report_message :: "json_object \<Rightarrow> LiveServerMessage" where
  "report_message args =
     \<lparr>inputTranscription = None, outputTranscription = None, modelAudio = None,
      interrupted = False, turnComplete = False,
      functionCalls = Some [\<lparr>fc_name = ''generateLearningReport'', fc_args = Some args\<rparr>]\<rparr>"

text \<open>
  A deep dive started on a freshly mounted component (one microphone track, the
  connection open), and the same session after one audio chunk of one second arrived at
  clock 0.
\<close>

definition dd_open_session :: dd_state where
  "dd_open_session = dd_onopen (fst (startDeepDive True (Some [0]) dd_initial))"

definition dd_playing_session :: dd_state where
  "dd_playing_session =
     fst (dd_onmessage Idle (\<lambda>b. 1) 0 (audio_message ''AAAA'') dd_open_session)"

text \<open>
  The open deep dive after the user pressed \<open>End Call\<close>: the button calls the
  \<open>stopDeepDive\<close> of the render that shows it, whose status is \<open>active\<close>.
\<close>

definition dd_ended_session :: dd_state where
  "dd_ended_session = stopDeepDive Active dd_open_session"

text \<open>The same two states of \<open>AudioTranscriber\<close>.\<close>

definition at_open_session :: at_state where
  "at_open_session = at_onopen (startSession (Some [0]) (at_initial None))"

definition at_playing_session :: at_state where
  "at_playing_session = at_onmessage (\<lambda>b. 1) 0 (audio_message ''AAAA'') at_open_session"

text \<open>
  Whether the first occurrence of \<open>a\<close> in a log is followed, later in the log, by
  \<open>b\<close>.
\<close>

fun occurs_before :: "effect \<Rightarrow> effect \<Rightarrow> effect list \<Rightarrow> bool" where
  "occurs_before a b [] = False"
| "occurs_before a b (e # es) = (if e = a then b \<in> set es else occurs_before a b es)"

section \<open>Properties of the transcript\<close>

lemma enqueue_unfold:
  "enqueue currentTime duration s =
     (let startAt = max (nextStartTimeRef s) currentTime;
          source = sourcesCreated s
      in s\<lparr>nextStartTimeRef := startAt + duration,
            audioSourcesRef := set_add source (audioSourcesRef s),
            sourcesCreated := Suc source,
            effects := effects s @ [SourceStart source startAt duration, SetAdd source]\<rparr>)"
  by (simp add: enqueue_def enqueue_begin_def enqueue_finish_def Let_def)

lemma conversation_audio_branch [simp]:
  "conversation (audio_branch bd ct m s) = conversation s"
  by (simp add: audio_branch_def enqueue_unfold Let_def split: option.splits)

lemma conversation_interrupt [simp]: "conversation (interrupt s) = conversation s"
  by (simp add: interrupt_def)

lemma conversation_at_onmessage:
  "conversation (at_onmessage bd ct m s) =
     (let c = conversation (transcription_branch m s)
      in if turnComplete m then markAllFinal c else c)"
  by (simp add: at_onmessage_def Let_def)

lemma conversation_fragment:
  "conversation (at_onmessage bd ct (fragment sp t tc) s) =
     (let c = applyTranscription sp (Some t) (conversation s)
      in if tc then markAllFinal c else c)"
  by (cases sp) (simp_all add: conversation_at_onmessage transcription_branch_def fragment_def)

lemma well_shaped_snoc:
  "well_shaped (ts @ [a]) \<longleftrightarrow>
     well_shaped ts \<and> (ts = [] \<or> speaker (last ts) \<noteq> speaker a \<or> isFinal (last ts))"
  by (induction ts rule: well_shaped.induct) auto

lemma well_shaped_butlast: "well_shaped ts \<Longrightarrow> well_shaped (butlast ts)"
  by (induction ts rule: well_shaped.induct) auto

lemma well_shaped_applyTranscription:
  assumes "well_shaped prev"
  shows "well_shaped (applyTranscription sp t prev)"
proof (cases "prev \<noteq> [] \<and> speaker (last prev) = sp \<and> \<not> isFinal (last prev)")
  case True
  then obtain ts l where prev: "prev = ts @ [l]"
    by (metis append_butlast_last_id)
  with assms have "well_shaped (ts @ [l\<lparr>turn_text := js_plus (turn_text l) t\<rparr>])"
    by (simp add: well_shaped_snoc)
  with True prev show ?thesis
    by (simp add: applyTranscription_def)
next
  case False
  with assms show ?thesis
    by (auto simp: applyTranscription_def well_shaped_snoc)
qed

lemma well_shaped_markAllFinal: "well_shaped (markAllFinal ts)"
  by (induction ts rule: well_shaped.induct) (simp_all add: markAllFinal_def)

lemma well_shaped_at_onmessage:
  assumes "well_shaped (conversation s)"
  shows "well_shaped (conversation (at_onmessage bd ct m s))"
proof -
  have "well_shaped (conversation (transcription_branch m s))"
    using assms
    by (simp add: transcription_branch_def well_shaped_applyTranscription split: option.splits)
  then show ?thesis
    by (simp add: conversation_at_onmessage well_shaped_markAllFinal Let_def)
qed

lemma well_shaped_at_run:
  "well_shaped (conversation s) \<Longrightarrow> well_shaped (conversation (at_run bd evs s))"
  by (induction evs arbitrary: s) (auto simp: well_shaped_at_onmessage)

lemma well_shaped_nth:
  "well_shaped ts \<longleftrightarrow>
     (\<forall>i. Suc i < length ts \<longrightarrow> speaker (ts ! i) \<noteq> speaker (ts ! Suc i) \<or> isFinal (ts ! i))"
proof (induction ts rule: well_shaped.induct)
  case (3 a b ts)
  show ?case
  proof
    assume ws: "well_shaped (a # b # ts)"
    show "\<forall>i. Suc i < length (a # b # ts) \<longrightarrow>
            speaker ((a # b # ts) ! i) \<noteq> speaker ((a # b # ts) ! Suc i) \<or> isFinal ((a # b # ts) ! i)"
    proof (intro allI impI)
      fix i assume "Suc i < length (a # b # ts)"
      with ws 3 show "speaker ((a # b # ts) ! i) \<noteq> speaker ((a # b # ts) ! Suc i)
          \<or> isFinal ((a # b # ts) ! i)"
        by (cases i) auto
    qed
  next
    assume r: "\<forall>i. Suc i < length (a # b # ts) \<longrightarrow>
            speaker ((a # b # ts) ! i) \<noteq> speaker ((a # b # ts) ! Suc i) \<or> isFinal ((a # b # ts) ! i)"
    have "speaker a \<noteq> speaker b \<or> isFinal a"
      using r [rule_format, of 0] by simp
    moreover have "well_shaped (b # ts)"
      unfolding 3
    proof (intro allI impI)
      fix i assume "Suc i < length (b # ts)"
      then show "speaker ((b # ts) ! i) \<noteq> speaker ((b # ts) ! Suc i) \<or> isFinal ((b # ts) ! i)"
        using r [rule_format, of "Suc i"] by simp
    qed
    ultimately show "well_shaped (a # b # ts)" by simp
  qed
qed simp_all


lemma applyTranscription_merge:
  "speaker l = sp \<Longrightarrow> \<not> isFinal l \<Longrightarrow>
     applyTranscription sp t (ts @ [l]) = ts @ [l\<lparr>turn_text := js_plus (turn_text l) t\<rparr>]"
  by (simp add: applyTranscription_def)

lemma applyTranscription_push:
  "prev = [] \<or> speaker (last prev) \<noteq> sp \<or> isFinal (last prev) \<Longrightarrow>
     applyTranscription sp t prev
       = prev @ [\<lparr>speaker = sp, turn_text = text_value t, isFinal = False\<rparr>]"
  by (auto simp: applyTranscription_def)

lemma markAllFinal_explicit:
  "markAllFinal c =
     map (\<lambda>turn. \<lparr>speaker = speaker turn, turn_text = turn_text turn, isFinal = True\<rparr>) c"
  by (simp add: markAllFinal_def)

lemma hello_run:
  assumes "conversation s = []"
  shows "conversation
           (at_run bd [(t1, fragment User ''Hel'' False), (t2, fragment User ''lo'' False),
                       (t3, fragment User [] True)] s)
         = [\<lparr>speaker = User, turn_text = Text ''Hello'', isFinal = True\<rparr>]"
proof -
  let ?a = "at_onmessage bd t1 (fragment User ''Hel'' False) s"
  let ?b = "at_onmessage bd t2 (fragment User ''lo'' False) ?a"
  let ?c = "at_onmessage bd t3 (fragment User [] True) ?b"
  have a: "conversation ?a = [\<lparr>speaker = User, turn_text = Text ''Hel'', isFinal = False\<rparr>]"
    using assms by (simp add: conversation_fragment applyTranscription_def)
  have b: "conversation ?b = [\<lparr>speaker = User, turn_text = Text ''Hello'', isFinal = False\<rparr>]"
    by (simp add: conversation_fragment [of bd t2] a applyTranscription_def)
  have c: "conversation ?c = [\<lparr>speaker = User, turn_text = Text ''Hello'', isFinal = True\<rparr>]"
    by (simp add: conversation_fragment [of bd t3] b applyTranscription_def markAllFinal_def)
  then show ?thesis by simp
qed

text \<open>
  Where a message carries one transcription and that transcription has a text, the
  handler assembles the transcript as the specification describes: the text is appended
  to a trailing turn of the same speaker that is not final, a new turn is pushed
  otherwise; \<open>turnComplete\<close> sets every \<open>isFinal\<close>, after the fragment of the same
  message; and the fragments \<open>Hel\<close>, \<open>lo\<close> and the empty final one give one final
  turn \<open>Hello\<close>.
\<close>

lemma single_fragment_assembly:
  "(conversation s = ts @ [l] \<and> speaker l = sp \<and> \<not> isFinal l \<and> turn_text l = Text a \<longrightarrow>
      conversation (at_onmessage bd ct (fragment sp t False) s)
        = ts @ [l\<lparr>turn_text := Text (a @ t)\<rparr>])
   \<and> (conversation s = [] \<or> speaker (last (conversation s)) \<noteq> sp
        \<or> isFinal (last (conversation s)) \<longrightarrow>
      conversation (at_onmessage bd ct (fragment sp t False) s)
        = conversation s @ [\<lparr>speaker = sp, turn_text = Text t, isFinal = False\<rparr>])
   \<and> conversation (at_onmessage bd ct (fragment sp t True) s)
        = map (\<lambda>turn. \<lparr>speaker = speaker turn, turn_text = turn_text turn, isFinal = True\<rparr>)
            (conversation (at_onmessage bd ct (fragment sp t False) s))
   \<and> conversation
        (at_onmessage bd ct
           \<lparr>inputTranscription = None, outputTranscription = None, modelAudio = audio,
            interrupted = intr, turnComplete = True, functionCalls = calls\<rparr> s)
        = map (\<lambda>turn. \<lparr>speaker = speaker turn, turn_text = turn_text turn, isFinal = True\<rparr>)
            (conversation s)
   \<and> (conversation s = [] \<longrightarrow>
      conversation
        (at_run bd [(t1, fragment User ''Hel'' False), (t2, fragment User ''lo'' False),
                    (t3, fragment User [] True)] s)
        = [\<lparr>speaker = User, turn_text = Text ''Hello'', isFinal = True\<rparr>])"
proof (intro conjI impI)
  assume "conversation s = ts @ [l] \<and> speaker l = sp \<and> \<not> isFinal l \<and> turn_text l = Text a"
  then show "conversation (at_onmessage bd ct (fragment sp t False) s)
      = ts @ [l\<lparr>turn_text := Text (a @ t)\<rparr>]"
    by (simp add: conversation_fragment applyTranscription_merge)
next
  assume "conversation s = [] \<or> speaker (last (conversation s)) \<noteq> sp
        \<or> isFinal (last (conversation s))"
  then show "conversation (at_onmessage bd ct (fragment sp t False) s)
      = conversation s @ [\<lparr>speaker = sp, turn_text = Text t, isFinal = False\<rparr>]"
    by (simp add: conversation_fragment applyTranscription_push)
next
  show "conversation (at_onmessage bd ct (fragment sp t True) s)
      = map (\<lambda>turn. \<lparr>speaker = speaker turn, turn_text = turn_text turn, isFinal = True\<rparr>)
          (conversation (at_onmessage bd ct (fragment sp t False) s))"
    by (simp add: conversation_fragment markAllFinal_explicit)
next
  show "conversation
        (at_onmessage bd ct
           \<lparr>inputTranscription = None, outputTranscription = None, modelAudio = audio,
            interrupted = intr, turnComplete = True, functionCalls = calls\<rparr> s)
        = map (\<lambda>turn. \<lparr>speaker = speaker turn, turn_text = turn_text turn, isFinal = True\<rparr>)
            (conversation s)"
    by (simp add: conversation_at_onmessage transcription_branch_def markAllFinal_explicit)
next
  assume "conversation s = []"
  then show "conversation
        (at_run bd [(t1, fragment User ''Hel'' False), (t2, fragment User ''lo'' False),
                    (t3, fragment User [] True)] s)
        = [\<lparr>speaker = User, turn_text = Text ''Hello'', isFinal = True\<rparr>]"
    by (rule hello_run)
qed

text \<open>
  The deep dive reads the two transcription objects of a message one after the other,
  and applies both.
\<close>

lemma deep_dive_applies_both_fragments:
  "deepDiveConversation (fst (dd_onmessage rs bd ct both_fragments_message dd_open_session))
     = [\<lparr>dd_speaker = User, dd_text = Text ''Hi''\<rparr>,
        \<lparr>dd_speaker = Model, dd_text = Text ''Hello''\<rparr>]"
  by (simp add: dd_onmessage_def both_fragments_message_def audio_branch_def
      toolCall_branch_def dd_applyTranscription_def dd_open_session_def dd_onopen_def
      startDeepDive_def dd_initial_def)

section \<open>Claims about the transcript\<close>

text \<open>
  C1. Transcript assembly in \<open>AudioTranscriber\<close>. The claim is about every fragment
  received. The handler applies one fragment per message: where a message carries an
  input and an output transcription, the outcome is the same as without the output
  transcription, so the model's fragment is never appended and starts no turn. On the
  open session the message with the user's \<open>Hi\<close> and the model's \<open>Hello\<close> leaves
  the one turn of the user (the deep dive makes two turns of it,
  \<open>deep_dive_applies_both_fragments\<close>). And where the one transcription of a message has
  no \<open>text\<close>, the handler appends the word \<open>undefined\<close> to the trailing turn, or
  pushes a turn whose text is \<open>undefined\<close>. For messages with one transcription that
  has a text the claim holds (\<open>single_fragment_assembly\<close>).
\<close>

theorem output_fragment_dropped:
  "at_onmessage bd ct (m\<lparr>inputTranscription := Some inT, outputTranscription := Some outT\<rparr>) s
     = at_onmessage bd ct (m\<lparr>inputTranscription := Some inT, outputTranscription := None\<rparr>) s
   \<and> conversation (at_onmessage bd ct both_fragments_message at_open_session)
       = [\<lparr>speaker = User, turn_text = Text ''Hi'', isFinal = False\<rparr>]
   \<and> conversation
        (at_onmessage bd ct textless_message
           (at_open_session\<lparr>conversation :=
              [\<lparr>speaker = User, turn_text = Text ''Hel'', isFinal = False\<rparr>]\<rparr>))
       = [\<lparr>speaker = User, turn_text = Text ''Helundefined'', isFinal = False\<rparr>]
   \<and> conversation (at_onmessage bd ct textless_message at_open_session)
       = [\<lparr>speaker = User, turn_text = Undefined, isFinal = False\<rparr>]"
proof (intro conjI)
  show "at_onmessage bd ct
          (m\<lparr>inputTranscription := Some inT, outputTranscription := Some outT\<rparr>) s
     = at_onmessage bd ct
          (m\<lparr>inputTranscription := Some inT, outputTranscription := None\<rparr>) s"
    by (simp add: at_onmessage_def transcription_branch_def audio_branch_def)
  have start: "conversation at_open_session = []"
    by (simp add: at_open_session_def at_onopen_def startSession_def at_initial_def)
  show "conversation (at_onmessage bd ct both_fragments_message at_open_session)
       = [\<lparr>speaker = User, turn_text = Text ''Hi'', isFinal = False\<rparr>]"
    by (simp add: conversation_at_onmessage transcription_branch_def both_fragments_message_def
        applyTranscription_def start)
  show "conversation
        (at_onmessage bd ct textless_message
           (at_open_session\<lparr>conversation :=
              [\<lparr>speaker = User, turn_text = Text ''Hel'', isFinal = False\<rparr>]\<rparr>))
       = [\<lparr>speaker = User, turn_text = Text ''Helundefined'', isFinal = False\<rparr>]"
    by (simp add: conversation_at_onmessage transcription_branch_def textless_message_def
        applyTranscription_def)
  show "conversation (at_onmessage bd ct textless_message at_open_session)
       = [\<lparr>speaker = User, turn_text = Undefined, isFinal = False\<rparr>]"
    by (simp add: conversation_at_onmessage transcription_branch_def textless_message_def
        applyTranscription_def start)
qed

theorem output_fragment_dropped_witness:
  "at_onmessage (\<lambda>b. 1) 0 both_fragments_message at_open_session
     = at_onmessage (\<lambda>b. 1) 0 (fragment User ''Hi'' False) at_open_session
   \<and> conversation (at_onmessage (\<lambda>b. 1) 0 both_fragments_message at_open_session)
       = [\<lparr>speaker = User, turn_text = Text ''Hi'', isFinal = False\<rparr>]"
proof -
  have both: "both_fragments_message
      = (fragment User ''Hi'' False)
          \<lparr>inputTranscription := Some \<lparr>transcription_text = Some ''Hi''\<rparr>,
           outputTranscription := Some \<lparr>transcription_text = Some ''Hello''\<rparr>\<rparr>"
    by (simp add: both_fragments_message_def fragment_def)
  have one: "fragment User ''Hi'' False
      = (fragment User ''Hi'' False)
          \<lparr>inputTranscription := Some \<lparr>transcription_text = Some ''Hi''\<rparr>,
           outputTranscription := None\<rparr>"
    by (simp add: fragment_def)
  note dropped = output_fragment_dropped
    [where bd = "\<lambda>b. 1" and ct = 0 and m = "fragment User ''Hi'' False"
       and inT = "\<lparr>transcription_text = Some ''Hi''\<rparr>"
       and outT = "\<lparr>transcription_text = Some ''Hello''\<rparr>" and s = at_open_session]
  from dropped have 1: "at_onmessage (\<lambda>b. 1) 0 both_fragments_message at_open_session
     = at_onmessage (\<lambda>b. 1) 0 (fragment User ''Hi'' False) at_open_session"
    unfolding both [symmetric] one [symmetric] by blast
  from dropped have 2: "conversation (at_onmessage (\<lambda>b. 1) 0 both_fragments_message at_open_session)
       = [\<lparr>speaker = User, turn_text = Text ''Hi'', isFinal = False\<rparr>]"
    by blast
  from 1 2 show ?thesis by blast
qed

text \<open>
  C9. Shape of the transcript of \<open>AudioTranscriber\<close>. Starting from a conversation
  in which any two adjacent turns differ in speaker or have the earlier one final (the
  empty conversation of a new session is one), the same holds after any run of messages:
  for every position \<open>i\<close> with a successor, the turn at \<open>i\<close> is final or the two
  speakers differ.
\<close>

theorem transcript_shape_invariant:
  assumes "well_shaped (conversation s)"
    and "Suc i < length (conversation (at_run bd evs s))"
  shows "speaker (conversation (at_run bd evs s) ! i)
           \<noteq> speaker (conversation (at_run bd evs s) ! Suc i)
         \<or> isFinal (conversation (at_run bd evs s) ! i)"
proof -
  have "well_shaped (conversation (at_run bd evs s))"
    using assms(1) by (rule well_shaped_at_run)
  then show ?thesis
    using assms(2) by (simp add: well_shaped_nth)
qed


lemma two_user_turns_run:
  "conversation
     (at_run (\<lambda>b. 1) [(0, fragment User ''Hi'' False), (1, fragment User [] True),
                      (2, fragment User ''again'' False)] (at_initial None))
   = [\<lparr>speaker = User, turn_text = Text ''Hi'', isFinal = True\<rparr>,
      \<lparr>speaker = User, turn_text = Text ''again'', isFinal = False\<rparr>]"
proof -
  let ?a = "at_onmessage (\<lambda>b. 1) 0 (fragment User ''Hi'' False) (at_initial None)"
  let ?b = "at_onmessage (\<lambda>b. 1) 1 (fragment User [] True) ?a"
  let ?c = "at_onmessage (\<lambda>b. 1) 2 (fragment User ''again'' False) ?b"
  have a: "conversation ?a = [\<lparr>speaker = User, turn_text = Text ''Hi'', isFinal = False\<rparr>]"
    by (simp add: conversation_fragment applyTranscription_def at_initial_def)
  have b: "conversation ?b = [\<lparr>speaker = User, turn_text = Text ''Hi'', isFinal = True\<rparr>]"
    by (simp add: conversation_fragment [of _ 1] a applyTranscription_def markAllFinal_def)
  have "conversation ?c = [\<lparr>speaker = User, turn_text = Text ''Hi'', isFinal = True\<rparr>,
      \<lparr>speaker = User, turn_text = Text ''again'', isFinal = False\<rparr>]"
    by (simp add: conversation_fragment [of _ 2] b applyTranscription_def)
  then show ?thesis by simp
qed

theorem transcript_shape_invariant_witness:
  "well_shaped (conversation (at_initial None))
   \<and> Suc 0 < length (conversation
        (at_run (\<lambda>b. 1) [(0, fragment User ''Hi'' False), (1, fragment User [] True),
                         (2, fragment User ''again'' False)] (at_initial None)))
   \<and> speaker (conversation
        (at_run (\<lambda>b. 1) [(0, fragment User ''Hi'' False), (1, fragment User [] True),
                         (2, fragment User ''again'' False)] (at_initial None)) ! 0)
     = speaker (conversation
        (at_run (\<lambda>b. 1) [(0, fragment User ''Hi'' False), (1, fragment User [] True),
                         (2, fragment User ''again'' False)] (at_initial None)) ! Suc 0)
   \<and> isFinal (conversation
        (at_run (\<lambda>b. 1) [(0, fragment User ''Hi'' False), (1, fragment User [] True),
                         (2, fragment User ''again'' False)] (at_initial None)) ! 0)"
proof -
  let ?evs = "[(0, fragment User ''Hi'' False), (1, fragment User [] True),
               (2, fragment User ''again'' False)]"
  let ?c = "conversation (at_run (\<lambda>b. 1) ?evs (at_initial None))"
  have start: "well_shaped (conversation (at_initial None))"
    by (simp add: at_initial_def)
  have len: "Suc 0 < length ?c"
    unfolding two_user_turns_run by simp
  have same: "speaker (?c ! 0) = speaker (?c ! Suc 0)"
    unfolding two_user_turns_run by simp
  from transcript_shape_invariant [OF start len] same have "isFinal (?c ! 0)"
    by simp
  with start len same show ?thesis by blast
qed


section \<open>Properties of the scheduler\<close>

lemma segments_append: "segments (xs @ ys) = segments xs @ segments ys"
  by (induction xs rule: segments.induct) simp_all

lemma effects_enqueue:
  "effects (enqueue ct d s) =
     effects s @ [SourceStart (sourcesCreated s) (max (nextStartTimeRef s) ct) d,
                  SetAdd (sourcesCreated s)]"
  by (simp add: enqueue_unfold Let_def)

lemma nextStartTimeRef_enqueue:
  "nextStartTimeRef (enqueue ct d s) = max (nextStartTimeRef s) ct + d"
  by (simp add: enqueue_unfold Let_def)

lemma enqueues_append: "enqueues (xs @ ys) s = enqueues ys (enqueues xs s)"
  by (induction xs arbitrary: s) auto

lemma not_overlapping_after:
  assumes "fst a + snd a \<le> fst b"
  shows "\<not> overlapping a b"
  using assms by (simp add: overlapping_def min_def max_def)

lemma enqueues_schedule:
  assumes "\<forall>r \<in> set reqs. 0 \<le> snd r"
  shows "\<exists>new. effects (enqueues reqs s) = effects s @ new
           \<and> no_overlaps (segments new)
           \<and> (\<forall>g \<in> set (segments new). nextStartTimeRef s \<le> fst g)"
  using assms
proof (induction reqs arbitrary: s)
  case Nil
  then show ?case by simp
next
  case (Cons r reqs)
  obtain ct d where r: "r = (ct, d)" by (cases r)
  let ?s' = "enqueue ct d s"
  let ?startAt = "max (nextStartTimeRef s) ct"
  from Cons.prems r have d: "0 \<le> d" and rest: "\<forall>r \<in> set reqs. 0 \<le> snd r"
    by auto
  from Cons.IH [OF rest, of ?s'] obtain new where
    new: "effects (enqueues reqs ?s') = effects ?s' @ new"
    and disjoint: "no_overlaps (segments new)"
    and later: "\<forall>g \<in> set (segments new). nextStartTimeRef ?s' \<le> fst g"
    by blast
  let ?new = "[SourceStart (sourcesCreated s) ?startAt d, SetAdd (sourcesCreated s)] @ new"
  have 1: "effects (enqueues (r # reqs) s) = effects s @ ?new"
    using new by (simp add: r effects_enqueue)
  have segs: "segments ?new = (?startAt, d) # segments new"
    by simp
  have after: "\<forall>g \<in> set (segments new). ?startAt + d \<le> fst g"
    using later by (simp add: nextStartTimeRef_enqueue)
  have "\<not> overlapping (?startAt, d) g" if "g \<in> set (segments new)" for g
    using after that by (intro not_overlapping_after) simp
  then have 2: "no_overlaps (segments ?new)"
    using disjoint by simp
  have 3: "\<forall>g \<in> set (segments ?new). nextStartTimeRef s \<le> fst g"
  proof
    fix g assume "g \<in> set (segments ?new)"
    then consider "g = (?startAt, d)" | "g \<in> set (segments new)"
      by (auto simp: segs)
    then show "nextStartTimeRef s \<le> fst g"
    proof cases
      case 1
      then show ?thesis by simp
    next
      case 2
      with after have "?startAt + d \<le> fst g" by blast
      with d show ?thesis by simp
    qed
  qed
  from 1 2 3 show ?case by blast
qed

text \<open>
  The same holds when the halves of several audio branches interleave: whatever the
  order of the steps, every segment starts at or after the end of the segments scheduled
  before it, and the clock does not decrease.
\<close>

lemma enqueue_steps_schedule:
  assumes "\<forall>d. Finish d \<in> set steps \<longrightarrow> 0 \<le> d"
  shows "\<exists>new. effects (enqueue_steps steps s) = effects s @ new
           \<and> no_overlaps (segments new)
           \<and> (\<forall>g \<in> set (segments new). nextStartTimeRef s \<le> fst g)
           \<and> nextStartTimeRef s \<le> nextStartTimeRef (enqueue_steps steps s)"
  using assms
proof (induction steps arbitrary: s)
  case Nil
  then show ?case by simp
next
  case (Cons st steps)
  then have rest: "\<forall>d. Finish d \<in> set steps \<longrightarrow> 0 \<le> d"
    by simp
  show ?case
  proof (cases st)
    case (Begin ct)
    let ?s' = "enqueue_begin ct s"
    have clock: "nextStartTimeRef s \<le> nextStartTimeRef ?s'"
      and log: "effects ?s' = effects s"
      by (simp_all add: enqueue_begin_def)
    from Cons.IH [OF rest, of ?s'] obtain new where
      "effects (enqueue_steps steps ?s') = effects ?s' @ new"
      "no_overlaps (segments new)"
      "\<forall>g \<in> set (segments new). nextStartTimeRef ?s' \<le> fst g"
      "nextStartTimeRef ?s' \<le> nextStartTimeRef (enqueue_steps steps ?s')"
      by blast
    with clock log have "effects (enqueue_steps (st # steps) s) = effects s @ new
        \<and> no_overlaps (segments new)
        \<and> (\<forall>g \<in> set (segments new). nextStartTimeRef s \<le> fst g)
        \<and> nextStartTimeRef s \<le> nextStartTimeRef (enqueue_steps (st # steps) s)"
      by (auto simp: Begin intro: order_trans)
    then show ?thesis by blast
  next
    case (Finish d)
    let ?s' = "enqueue_finish d s"
    let ?T = "nextStartTimeRef s"
    from Cons.prems Finish have d: "0 \<le> d"
      by simp
    have clock: "nextStartTimeRef ?s' = ?T + d"
      and log: "effects ?s' = effects s @ [SourceStart (sourcesCreated s) ?T d,
                                           SetAdd (sourcesCreated s)]"
      by (simp_all add: enqueue_finish_def Let_def)
    from Cons.IH [OF rest, of ?s'] obtain new where
      new: "effects (enqueue_steps steps ?s') = effects ?s' @ new"
      and disjoint: "no_overlaps (segments new)"
      and later: "\<forall>g \<in> set (segments new). nextStartTimeRef ?s' \<le> fst g"
      and mono: "nextStartTimeRef ?s' \<le> nextStartTimeRef (enqueue_steps steps ?s')"
      by blast
    let ?new = "[SourceStart (sourcesCreated s) ?T d, SetAdd (sourcesCreated s)] @ new"
    have 1: "effects (enqueue_steps (st # steps) s) = effects s @ ?new"
      using new log by (simp add: Finish)
    have after: "\<forall>g \<in> set (segments new). ?T + d \<le> fst g"
      using later clock by simp
    have "\<not> overlapping (?T, d) g" if "g \<in> set (segments new)" for g
      using after that by (intro not_overlapping_after) simp
    then have 2: "no_overlaps (segments ?new)"
      using disjoint by simp
    have 3: "\<forall>g \<in> set (segments ?new). ?T \<le> fst g"
      using after d by auto
    have 4: "?T \<le> nextStartTimeRef (enqueue_steps (st # steps) s)"
      using mono clock d by (simp add: Finish)
    from 1 2 3 4 show ?thesis by blast
  qed
qed

lemma audio_message_at_onmessage:
  "base64Audio \<noteq> [] \<Longrightarrow> outputAudioContextRef s \<noteq> None \<Longrightarrow>
     at_onmessage bd ct (audio_message base64Audio) s = enqueue ct (bd base64Audio) s"
  by (simp add: at_onmessage_def audio_message_def transcription_branch_def audio_branch_def)

lemma audio_message_dd_onmessage:
  "base64Audio \<noteq> [] \<Longrightarrow> outputAudioContextRef s \<noteq> None \<Longrightarrow>
     dd_onmessage rs bd ct (audio_message base64Audio) s = (enqueue ct (bd base64Audio) s, None)"
  by (simp add: dd_onmessage_def audio_message_def toolCall_branch_def audio_branch_def)

text \<open>
  C3. Scheduler non-overlap and monotone clock. Take any run of enqueue operations
  whose buffers have a duration of at least zero, from any state of either component and
  with any clock readings. The segments the run schedules (the \<open>source.start\<close> calls it
  adds to the log) are pairwise non-overlapping as intervals \<open>[start, start + duration)\<close>,
  and \<open>nextStartTimeRef\<close> does not decrease from one enqueue to the next. A message
  carrying a non-empty audio chunk, while the output context exists, is exactly one such
  enqueue in \<open>AudioTranscriber\<close> and in the deep dive.
\<close>

theorem scheduler_non_overlap_monotone:
  assumes "\<forall>r \<in> set reqs. 0 \<le> snd r"
  shows "no_overlaps (segments (drop (length (effects s)) (effects (enqueues reqs s))))
     \<and> (\<forall>k < length reqs.
          nextStartTimeRef (enqueues (take k reqs) s)
            \<le> nextStartTimeRef (enqueues (take (Suc k) reqs) s))
     \<and> (base64Audio \<noteq> [] \<and> outputAudioContextRef a \<noteq> None \<longrightarrow>
          at_onmessage bd ct (audio_message base64Audio) a = enqueue ct (bd base64Audio) a)
     \<and> (base64Audio \<noteq> [] \<and> outputAudioContextRef v \<noteq> None \<longrightarrow>
          dd_onmessage rs bd ct (audio_message base64Audio) v
            = (enqueue ct (bd base64Audio) v, None))"
proof (intro conjI allI impI)
  from enqueues_schedule [OF assms, of s] obtain new where
    "effects (enqueues reqs s) = effects s @ new" and "no_overlaps (segments new)"
    by blast
  then show "no_overlaps (segments (drop (length (effects s)) (effects (enqueues reqs s))))"
    by simp
next
  fix k assume k: "k < length reqs"
  obtain ct' d where r: "reqs ! k = (ct', d)" by (cases "reqs ! k")
  from k assms r have d: "0 \<le> d"
    by (metis nth_mem snd_conv)
  have "take (Suc k) reqs = take k reqs @ [(ct', d)]"
    using k r by (simp add: take_Suc_conv_app_nth)
  then have "nextStartTimeRef (enqueues (take (Suc k) reqs) s)
      = max (nextStartTimeRef (enqueues (take k reqs) s)) ct' + d"
    by (simp add: enqueues_append nextStartTimeRef_enqueue)
  with d show "nextStartTimeRef (enqueues (take k reqs) s)
      \<le> nextStartTimeRef (enqueues (take (Suc k) reqs) s)"
    by simp
next
  assume "base64Audio \<noteq> [] \<and> outputAudioContextRef a \<noteq> None"
  then show "at_onmessage bd ct (audio_message base64Audio) a = enqueue ct (bd base64Audio) a"
    by (simp add: audio_message_at_onmessage)
next
  assume "base64Audio \<noteq> [] \<and> outputAudioContextRef v \<noteq> None"
  then show "dd_onmessage rs bd ct (audio_message base64Audio) v
      = (enqueue ct (bd base64Audio) v, None)"
    by (simp add: audio_message_dd_onmessage)
qed


theorem scheduler_non_overlap_monotone_witness:
  "no_overlaps
     (segments
        (drop (length (effects (at_initial None)))
           (effects (enqueues [(0, 1), (1 / 2, 2), (10, 1)] (at_initial None)))))
   \<and> nextStartTimeRef (enqueues (take 1 [(0, 1), (1 / 2, 2), (10, 1)]) (at_initial None))
       \<le> nextStartTimeRef (enqueues (take (Suc 1) [(0, 1), (1 / 2, 2), (10, 1)]) (at_initial None))
   \<and> at_onmessage (\<lambda>b. 1) 0 (audio_message ''AAAA'') (startSession (Some [0]) (at_initial None))
       = enqueue 0 1 (startSession (Some [0]) (at_initial None))
   \<and> dd_onmessage Idle (\<lambda>b. 1) 0 (audio_message ''AAAA'')
         (fst (startDeepDive True (Some [0]) dd_initial))
       = (enqueue 0 1 (fst (startDeepDive True (Some [0]) dd_initial)), None)"
proof -
  let ?reqs = "[(0, 1), (1 / 2, 2), (10, 1)] :: (real \<times> real) list"
  let ?a = "startSession (Some [0]) (at_initial None)"
  let ?v = "fst (startDeepDive True (Some [0]) dd_initial)"
  have durations: "\<forall>r \<in> set ?reqs. 0 \<le> snd r"
    by simp
  have k: "1 < length ?reqs"
    by simp
  have a: "''AAAA'' \<noteq> [] \<and> outputAudioContextRef ?a \<noteq> None"
    by (simp add: startSession_def at_initial_def)
  have v: "''AAAA'' \<noteq> [] \<and> outputAudioContextRef ?v \<noteq> None"
    by (simp add: startDeepDive_def dd_initial_def)
  note run = scheduler_non_overlap_monotone
    [OF durations, where s = "at_initial None" and a = ?a and v = ?v
       and base64Audio = "''AAAA''" and bd = "\<lambda>b. 1" and ct = 0 and rs = Idle]
  from run have 1: "no_overlaps
     (segments (drop (length (effects (at_initial None)))
        (effects (enqueues ?reqs (at_initial None)))))"
    by blast
  from run k have 2: "nextStartTimeRef (enqueues (take 1 ?reqs) (at_initial None))
       \<le> nextStartTimeRef (enqueues (take (Suc 1) ?reqs) (at_initial None))"
    by blast
  from run a have 3: "at_onmessage (\<lambda>b. 1) 0 (audio_message ''AAAA'') ?a = enqueue 0 1 ?a"
    by blast
  from run v have 4: "dd_onmessage Idle (\<lambda>b. 1) 0 (audio_message ''AAAA'') ?v
       = (enqueue 0 1 ?v, None)"
    by blast
  from 1 2 3 4 show ?thesis by blast
qed


section \<open>Properties of the PCM16 encoder\<close>

lemma sint_word_of_int_16:
  "sint (word_of_int k :: 16 word) = (k + 32768) mod 65536 - 32768"
  by (simp add: sint_sbintrunc' signed_take_bit_eq_take_bit_shift take_bit_eq_mod)

lemma js_truncate_towards_zero:
  "js_truncate x = (if 0 \<le> x then \<lfloor>\<bar>x\<bar>\<rfloor> else - \<lfloor>\<bar>x\<bar>\<rfloor>)"
  by (simp add: js_truncate_def ceiling_def)

lemma int16_bytes_little_endian:
  "uint (ucast w :: 8 word) + 256 * uint (ucast (drop_bit 8 w) :: 8 word) = uint (w :: 16 word)"
proof -
  have lo: "uint (ucast w :: 8 word) = uint w mod 256"
    by (simp add: unsigned_ucast_eq take_bit_eq_mod)
  have "uint w < 65536"
    using uint_bounded [of w] by simp
  then have small: "uint w div 256 < 256"
    by simp
  have "uint (ucast (drop_bit 8 w) :: 8 word) = (uint w div 256) mod 256"
    by (simp add: unsigned_ucast_eq unsigned_drop_bit_eq take_bit_eq_mod drop_bit_eq_div
        uint_div_distrib)
  moreover have "0 \<le> uint w div 256"
    by (simp add: pos_imp_zdiv_nonneg_iff)
  ultimately have hi: "uint (ucast (drop_bit 8 w) :: 8 word) = uint w div 256"
    using small by (simp add: mod_pos_pos_trivial)
  show ?thesis
    unfolding lo hi by simp
qed

lemma uint8_view_nth:
  "i < length int16 \<Longrightarrow>
     uint8_view int16 ! (2 * i) = ucast (int16 ! i)
     \<and> uint8_view int16 ! (2 * i + 1) = ucast (drop_bit 8 (int16 ! i))"
proof (induction int16 arbitrary: i)
  case Nil
  then show ?case by simp
next
  case (Cons w ws)
  show ?case
  proof (cases i)
    case 0
    then show ?thesis by (simp add: uint8_view_def int16_bytes_def)
  next
    case (Suc j)
    with Cons.prems have "j < length ws" by simp
    from Cons.IH [OF this] Suc show ?thesis
      by (simp add: uint8_view_def int16_bytes_def)
  qed
qed

lemma wraps_at_three_halves:
  "sint (ToInt16 (3 / 2 * 32768)) = - 16384"
  by (simp add: ToInt16_def js_truncate_def sint_word_of_int_16)

text \<open>
  C7. PCM16 encoding. Entry \<open>i\<close> of the \<open>Int16Array\<close> is the sample times 32768,
  truncated towards zero and reduced to 16 bits in two's complement: its signed value is
  the truncated product when that lies in \<open>[-32768, 32767]\<close>, and the product wrapped
  modulo \<open>2^16\<close> in general. The byte view holds entry \<open>i\<close> at the positions \<open>2i\<close>
  and \<open>2i + 1\<close>, low byte first. Nothing clamps: a sample outside \<open>[-1, 1]\<close> exists
  whose entry differs from the saturated value.
\<close>

theorem pcm16_encoding:
  "(i < length inputData \<longrightarrow>
      float_to_int16 inputData ! i = ToInt16 (inputData ! i * 32768))
   \<and> js_truncate x = (if 0 \<le> x then \<lfloor>\<bar>x\<bar>\<rfloor> else - \<lfloor>\<bar>x\<bar>\<rfloor>)
   \<and> sint (ToInt16 x) = (js_truncate x + 32768) mod 65536 - 32768
   \<and> (- 32768 \<le> js_truncate x \<and> js_truncate x < 32768 \<longrightarrow> sint (ToInt16 x) = js_truncate x)
   \<and> (j < length int16 \<longrightarrow>
        uint8_view int16 ! (2 * j) = ucast (int16 ! j)
        \<and> uint8_view int16 ! (2 * j + 1) = ucast (drop_bit 8 (int16 ! j)))
   \<and> uint (ucast w :: 8 word) + 256 * uint (ucast (drop_bit 8 w) :: 8 word) = uint (w :: 16 word)
   \<and> (\<exists>sample. \<not> (- 1 \<le> sample \<and> sample \<le> 1)
        \<and> sint (ToInt16 (sample * 32768))
            \<noteq> max (- 32768) (min 32767 (js_truncate (sample * 32768))))"
proof (intro conjI impI)
  assume "i < length inputData"
  then show "float_to_int16 inputData ! i = ToInt16 (inputData ! i * 32768)"
    by (simp add: float_to_int16_def)
next
  show "js_truncate x = (if 0 \<le> x then \<lfloor>\<bar>x\<bar>\<rfloor> else - \<lfloor>\<bar>x\<bar>\<rfloor>)"
    by (rule js_truncate_towards_zero)
next
  show "sint (ToInt16 x) = (js_truncate x + 32768) mod 65536 - 32768"
    by (simp add: ToInt16_def sint_word_of_int_16)
next
  assume "- 32768 \<le> js_truncate x \<and> js_truncate x < 32768"
  then show "sint (ToInt16 x) = js_truncate x"
    by (simp add: ToInt16_def sint_word_of_int_16)
next
  assume "j < length int16"
  then show "uint8_view int16 ! (2 * j) = ucast (int16 ! j)"
    and "uint8_view int16 ! (2 * j + 1) = ucast (drop_bit 8 (int16 ! j))"
    using uint8_view_nth [of j int16] by simp_all
next
  show "uint (ucast w :: 8 word) + 256 * uint (ucast (drop_bit 8 w) :: 8 word) = uint w"
    by (rule int16_bytes_little_endian)
next
  have "\<not> (- 1 \<le> (3 / 2 :: real) \<and> (3 / 2 :: real) \<le> 1)"
    by simp
  moreover have t: "js_truncate (3 / 2 * 32768) = 49152"
    by (simp add: js_truncate_def)
  have "sint (ToInt16 (3 / 2 * 32768))
      \<noteq> max (- 32768) (min 32767 (js_truncate (3 / 2 * 32768)))"
    unfolding t wraps_at_three_halves by simp
  ultimately show "\<exists>sample. \<not> (- 1 \<le> sample \<and> sample \<le> 1)
        \<and> sint (ToInt16 (sample * 32768))
            \<noteq> max (- 32768) (min 32767 (js_truncate (sample * 32768)))"
    by blast
qed

theorem pcm16_encoding_witness:
  "float_to_int16 [1 / 2, - (1 / 4)] ! 1 = ToInt16 (- (1 / 4) * 32768)
   \<and> sint (ToInt16 (- (1 / 4) * 32768)) = - 8192
   \<and> uint8_view [258, - 2] ! (2 * 1) = (254 :: 8 word)
   \<and> uint8_view [258, - 2] ! (2 * 1 + 1) = (255 :: 8 word)"
proof -
  let ?x = "- (1 / 4) * 32768 :: real"
  have i: "1 < length [1 / 2, - (1 / 4) :: real]"
    by simp
  have t: "js_truncate ?x = - 8192"
    by (simp add: js_truncate_def)
  then have range: "- 32768 \<le> js_truncate ?x \<and> js_truncate ?x < 32768"
    by simp
  have j: "1 < length [258, - 2 :: 16 word]"
    by simp
  note enc = pcm16_encoding
    [where i = 1 and inputData = "[1 / 2, - (1 / 4)]" and x = ?x and j = 1
       and ?int16.0 = "[258, - 2]"]
  from enc i have 1: "float_to_int16 [1 / 2, - (1 / 4)] ! 1 = ToInt16 ?x"
    by simp
  from enc range have "sint (ToInt16 ?x) = js_truncate ?x"
    by blast
  with t have 2: "sint (ToInt16 ?x) = - 8192"
    by simp
  from enc j have "uint8_view [258, - 2] ! (2 * 1) = ucast ([258, - 2 :: 16 word] ! 1)
      \<and> uint8_view [258, - 2] ! (2 * 1 + 1) = ucast (drop_bit 8 ([258, - 2 :: 16 word] ! 1))"
    by blast
  then have 3: "uint8_view [258, - 2] ! (2 * 1) = (254 :: 8 word)
      \<and> uint8_view [258, - 2] ! (2 * 1 + 1) = (255 :: 8 word)"
    by simp
  from 1 2 3 show ?thesis by blast
qed


section \<open>Properties of the history\<close>

lemma history_release_resources [simp]:
  "history (release_resources s) = history s"
  by (simp add: release_resources_def log_effects_def Let_def split: option.splits)

lemma storage_release_resources [simp]:
  "storage (release_resources s) = storage s"
  by (simp add: release_resources_def log_effects_def Let_def split: option.splits)

lemma loadHistory_unparseable:
  assumes "storage s = Some stored" and "parse stored = None"
  shows "loadHistory parse s = (if stored = [] then s else log_effects [ConsoleError] s)"
  using assms by (simp add: loadHistory_def)

text \<open>
  C8. Corrupt history. When the stored text does not parse, the mount effect of
  \<open>AudioTranscriber\<close> leaves every state cell as it was (it only logs the error), so
  the history of the freshly mounted component stays the empty list; the mount effect of
  \<open>VideoProcessor\<close> leaves its history as it was, the empty list at mount. Neither
  has an error outcome: the \<open>SyntaxError\<close> is caught inside the effect.
\<close>

theorem corrupt_history_tolerance:
  assumes "parse stored = None" and "parseVideo stored = None"
  shows "history (loadHistory parse (at_initial (Some stored))) = []
     \<and> (storage s = Some stored \<longrightarrow>
          history (loadHistory parse s) = history s
          \<and> conversation (loadHistory parse s) = conversation s
          \<and> storage (loadHistory parse s) = storage s
          \<and> error (loadHistory parse s) = error s)
     \<and> loadVideoHistory parseVideo (Some stored) [] = []
     \<and> loadVideoHistory parseVideo (Some stored) h = h"
proof (intro conjI impI)
  have "storage (at_initial (Some stored)) = Some stored"
    by (simp add: at_initial_def)
  from loadHistory_unparseable [of "at_initial (Some stored)" stored parse] this assms(1)
  show "history (loadHistory parse (at_initial (Some stored))) = []"
    by (simp add: log_effects_def at_initial_def)
next
  assume st: "storage s = Some stored"
  have eq: "loadHistory parse s = (if stored = [] then s else log_effects [ConsoleError] s)"
    using st assms(1) by (rule loadHistory_unparseable)
  show "history (loadHistory parse s) = history s"
    by (simp add: eq log_effects_def)
  show "conversation (loadHistory parse s) = conversation s"
    by (simp add: eq log_effects_def)
  show "storage (loadHistory parse s) = storage s"
    by (simp add: eq log_effects_def)
  show "error (loadHistory parse s) = error s"
    by (simp add: eq log_effects_def)
next
  show "loadVideoHistory parseVideo (Some stored) [] = []"
    using assms(2) by (simp add: loadVideoHistory_def)
next
  show "loadVideoHistory parseVideo (Some stored) h = h"
    using assms(2) by (simp add: loadVideoHistory_def)
qed

theorem corrupt_history_tolerance_witness:
  "history (loadHistory (\<lambda>t. if t = ''[]'' then Some [] else None)
             (at_initial (Some ''{not json''))) = []
   \<and> loadVideoHistory (\<lambda>t. if t = ''[]'' then Some [] else None) (Some ''{not json'')
        ([] :: nat list) = []"
proof -
  let ?parse = "\<lambda>t. if t = ''[]'' then Some ([] :: AudioHistoryItem list) else None"
  let ?parseVideo = "\<lambda>t. if t = ''[]'' then Some ([] :: nat list) else None"
  have a: "?parse ''{not json'' = None"
    by simp
  have v: "?parseVideo ''{not json'' = None"
    by simp
  from corrupt_history_tolerance [of ?parse "''{not json''" ?parseVideo, OF a v]
  show ?thesis
    by blast
qed

text \<open>
  C10. Empty-session guard. \<open>saveToHistory\<close> called with an empty conversation
  returns the state as it is: no item is built, \<open>history\<close> and the storage entry keep
  their values. \<open>handleSessionEnded\<close> with an empty conversation in scope releases the
  resources and resets the session cells, and leaves \<open>history\<close> and the storage entry
  as they were.
\<close>

theorem empty_conversation_not_saved:
  "saveToHistory toString stringify idNow tsNow renderHistory [] s = s
   \<and> history (handleSessionEnded toString stringify idNow tsNow renderHistory [] s) = history s
   \<and> storage (handleSessionEnded toString stringify idNow tsNow renderHistory [] s) = storage s"
proof (intro conjI)
  show "saveToHistory toString stringify idNow tsNow renderHistory [] s = s"
    by (simp add: saveToHistory_def)
  show "history (handleSessionEnded toString stringify idNow tsNow renderHistory [] s) = history s"
    by (simp add: handleSessionEnded_def)
  show "storage (handleSessionEnded toString stringify idNow tsNow renderHistory [] s) = storage s"
    by (simp add: handleSessionEnded_def)
qed

theorem empty_conversation_not_saved_witness:
  "history (handleSessionEnded (\<lambda>n. ''0'') (\<lambda>items. ''[]'') 0 0 [] []
             (at_onopen (startSession (Some [0]) (at_initial (Some ''[]''))))) = []
   \<and> storage (handleSessionEnded (\<lambda>n. ''0'') (\<lambda>items. ''[]'') 0 0 [] []
             (at_onopen (startSession (Some [0]) (at_initial (Some ''[]''))))) = Some ''[]''"
  using empty_conversation_not_saved
    [of "\<lambda>n. ''0''" "\<lambda>items. ''[]''" 0 0 "[]"
        "at_onopen (startSession (Some [0]) (at_initial (Some ''[]'')))"]
  by (simp add: at_onopen_def startSession_def at_initial_def)


section \<open>Properties of interruption and of the order of registration\<close>

lemma dd_open_session_eq:
  "dd_open_session =
     \<lparr>sessionPromiseRef = Some (), inputAudioContextRef = Some Running,
      outputAudioContextRef = Some Running, scriptProcessorRef = Some (),
      mediaStreamSourceRef = Some (), mediaStreamRef = Some [0],
      nextStartTimeRef = 0, audioSourcesRef = [], sourcesCreated = 0, effects = [SetClear],
      deepDiveStatus = Active, deepDiveConversation = [], learningReport = None,
      deepDiveError = None\<rparr>"
  by (simp add: dd_open_session_def dd_onopen_def startDeepDive_def dd_initial_def)

lemma dd_playing_session_eq:
  "dd_playing_session =
     \<lparr>sessionPromiseRef = Some (), inputAudioContextRef = Some Running,
      outputAudioContextRef = Some Running, scriptProcessorRef = Some (),
      mediaStreamSourceRef = Some (), mediaStreamRef = Some [0],
      nextStartTimeRef = 1, audioSourcesRef = [0], sourcesCreated = 1,
      effects = [SetClear, SourceStart 0 0 1, SetAdd 0],
      deepDiveStatus = Active, deepDiveConversation = [], learningReport = None,
      deepDiveError = None\<rparr>"
  by (simp add: dd_playing_session_def dd_open_session_eq dd_onmessage_def audio_message_def
      audio_branch_def toolCall_branch_def enqueue_unfold set_add_def)

lemma at_open_session_eq:
  "at_open_session =
     \<lparr>sessionPromiseRef = Some (), inputAudioContextRef = Some Running,
      outputAudioContextRef = Some Running, scriptProcessorRef = Some (),
      mediaStreamSourceRef = Some (), mediaStreamRef = Some [0],
      nextStartTimeRef = 0, audioSourcesRef = [], sourcesCreated = 0, effects = [SetClear],
      isSessionActive = True, conversation = [], error = None,
      statusMessage = ''Listening...'', history = [], storage = None\<rparr>"
  by (simp add: at_open_session_def at_onopen_def startSession_def at_initial_def)

lemma at_playing_session_eq:
  "at_playing_session =
     \<lparr>sessionPromiseRef = Some (), inputAudioContextRef = Some Running,
      outputAudioContextRef = Some Running, scriptProcessorRef = Some (),
      mediaStreamSourceRef = Some (), mediaStreamRef = Some [0],
      nextStartTimeRef = 1, audioSourcesRef = [0], sourcesCreated = 1,
      effects = [SetClear, SourceStart 0 0 1, SetAdd 0],
      isSessionActive = True, conversation = [], error = None,
      statusMessage = ''Listening...'', history = [], storage = None\<rparr>"
  by (simp add: at_playing_session_def at_open_session_eq at_onmessage_def audio_message_def
      audio_branch_def transcription_branch_def enqueue_unfold set_add_def)

text \<open>
  In \<open>AudioTranscriber\<close> a message with \<open>interrupted\<close> stops every source that
  is in the set at that point of the handler (a chunk the same message carried included),
  clears the set and resets the clock.
\<close>

lemma at_onmessage_interrupted:
  assumes "interrupted m"
  shows "audioSourcesRef (at_onmessage bd ct m s) = []
     \<and> nextStartTimeRef (at_onmessage bd ct m s) = 0
     \<and> effects (at_onmessage bd ct m s) =
         effects (audio_branch bd ct m (transcription_branch m s))
         @ map SourceStop (audioSourcesRef (audio_branch bd ct m (transcription_branch m s)))
         @ [SetClear]"
  using assms by (simp add: at_onmessage_def interrupt_def Let_def)

lemma at_playing_session_interrupted:
  "audioSourcesRef (at_onmessage bd ct interruption_message at_playing_session) = []
   \<and> nextStartTimeRef (at_onmessage bd ct interruption_message at_playing_session) = 0
   \<and> effects (at_onmessage bd ct interruption_message at_playing_session)
       = [SetClear, SourceStart 0 0 1, SetAdd 0, SourceStop 0, SetClear]"
  by (simp add: at_onmessage_def interrupt_def interruption_message_def
      transcription_branch_def audio_branch_def at_playing_session_eq)

text \<open>
  C2. Interruption handling. \<open>AudioTranscriber\<close> does what the claim says
  (\<open>at_onmessage_interrupted\<close>). The handler of the deep dive never reads
  \<open>interrupted\<close>: a message has the same outcome with the flag set and with the flag
  clear. On the session that is playing one source, the interruption message leaves the
  source in the set, the clock at 1 and the log without any \<open>stop\<close>.
\<close>

theorem deep_dive_ignores_interruption:
  "dd_onmessage rs bd ct (m\<lparr>interrupted := True\<rparr>) s
     = dd_onmessage rs bd ct (m\<lparr>interrupted := False\<rparr>) s
   \<and> dd_onmessage Idle (\<lambda>b. 1) (1 / 2) interruption_message dd_playing_session
       = (dd_playing_session, None)
   \<and> audioSourcesRef dd_playing_session = [0]
   \<and> nextStartTimeRef dd_playing_session = 1
   \<and> SourceStop 0 \<notin> set (effects dd_playing_session)"
proof (intro conjI)
  show "dd_onmessage rs bd ct (m\<lparr>interrupted := True\<rparr>) s
     = dd_onmessage rs bd ct (m\<lparr>interrupted := False\<rparr>) s"
    by (simp add: dd_onmessage_def audio_branch_def toolCall_branch_def)
  show "dd_onmessage Idle (\<lambda>b. 1) (1 / 2) interruption_message dd_playing_session
       = (dd_playing_session, None)"
    by (simp add: dd_onmessage_def audio_branch_def toolCall_branch_def
        interruption_message_def)
  show "audioSourcesRef dd_playing_session = [0]"
    by (simp add: dd_playing_session_eq)
  show "nextStartTimeRef dd_playing_session = 1"
    by (simp add: dd_playing_session_eq)
  show "SourceStop 0 \<notin> set (effects dd_playing_session)"
    by (simp add: dd_playing_session_eq)
qed

theorem deep_dive_ignores_interruption_witness:
  "audioSourcesRef (fst (dd_onmessage Idle (\<lambda>b. 1) (1 / 2) interruption_message
      dd_playing_session)) = [0]
   \<and> nextStartTimeRef (fst (dd_onmessage Idle (\<lambda>b. 1) (1 / 2) interruption_message
      dd_playing_session)) = 1"
  using deep_dive_ignores_interruption [of Idle "\<lambda>b. 1" 0 interruption_message dd_initial]
  by simp

text \<open>
  C4, as the claim states it, fails: the log of an enqueue has \<open>source.start\<close>
  first and the \<open>add\<close> to the set after it.
\<close>

theorem registration_precedes_start_counterexample:
  "effects (enqueue 0 1 (at_initial None)) = [SourceStart 0 0 1, SetAdd 0]
   \<and> \<not> occurs_before (SetAdd 0) (SourceStart 0 0 1) (effects (enqueue 0 1 (at_initial None)))
   \<and> occurs_before (SourceStart 0 0 1) (SetAdd 0) (effects (enqueue 0 1 (at_initial None)))"
  by (simp add: enqueue_unfold at_initial_def)

text \<open>
  C4, amended. In every enqueue operation (the one text both handlers run)
  \<open>source.start\<close> is called first and the source is added to the set right after it,
  with no other call in between; when the operation is over the source is in the set.
\<close>

theorem start_then_registration:
  "effects (enqueue ct d s)
     = effects s @ [SourceStart (sourcesCreated s) (max (nextStartTimeRef s) ct) d,
                    SetAdd (sourcesCreated s)]
   \<and> sourcesCreated s \<in> set (audioSourcesRef (enqueue ct d s))
   \<and> occurs_before (SourceStart (sourcesCreated s) (max (nextStartTimeRef s) ct) d)
        (SetAdd (sourcesCreated s))
        (drop (length (effects s)) (effects (enqueue ct d s)))"
  by (simp add: enqueue_unfold Let_def set_add_def)

theorem start_then_registration_witness:
  "effects (enqueue (1 / 2) 2 at_playing_session)
     = [SetClear, SourceStart 0 0 1, SetAdd 0, SourceStart 1 1 2, SetAdd 1]
   \<and> 1 \<in> set (audioSourcesRef (enqueue (1 / 2) 2 at_playing_session))"
  using start_then_registration [of "1 / 2" 2 at_playing_session]
  by (simp add: at_playing_session_eq)


section \<open>Properties of stopping a session\<close>

lemma effects_release_resources:
  "effects (release_resources s) =
     effects s
     @ (case mediaStreamRef s of Some tracks \<Rightarrow> map TrackStop tracks | None \<Rightarrow> [])
     @ (if scriptProcessorRef s \<noteq> None then [ScriptProcessorDisconnect] else [])
     @ (if mediaStreamSourceRef s \<noteq> None then [MediaStreamSourceDisconnect] else [])
     @ (if inputAudioContextRef s \<in> {None, Some Closed} then [] else [InputContextClose])
     @ (if outputAudioContextRef s \<in> {None, Some Closed} then [] else [OutputContextClose])"
  by (cases "mediaStreamRef s"; cases "inputAudioContextRef s"; cases "outputAudioContextRef s")
     (simp_all add: release_resources_def log_effects_def Let_def)

lemma release_resources_dd_fields [simp]:
  "learningReport (release_resources s) = learningReport s"
  "deepDiveStatus (release_resources s) = deepDiveStatus s"
  "sessionPromiseRef (release_resources s) = sessionPromiseRef s"
  by (simp_all add: release_resources_def log_effects_def Let_def split: option.splits)

lemma stopDeepDive_fields:
  "learningReport (stopDeepDive rs s) = learningReport s"
  "deepDiveStatus (stopDeepDive rs s) = (if rs \<noteq> Complete then Idle else deepDiveStatus s)"
  "sessionPromiseRef (stopDeepDive rs s) = None"
  by (simp_all add: stopDeepDive_def handleDeepDiveSessionEnded_def log_effects_def Let_def)

lemma effects_stopDeepDive:
  "effects (stopDeepDive rs s) =
     effects (release_resources
       (if sessionPromiseRef s \<noteq> None then log_effects [SessionCloseRequested] s else s))"
  by (simp add: stopDeepDive_def handleDeepDiveSessionEnded_def Let_def)

lemma stopDeepDive_requests_close:
  assumes "sessionPromiseRef s \<noteq> None"
  shows "SessionCloseRequested \<in> set (effects (stopDeepDive rs s))"
  using assms by (simp add: effects_stopDeepDive effects_release_resources log_effects_def)

lemma audio_branch_dd_fields [simp]:
  "learningReport (audio_branch bd ct m s) = learningReport s"
  "deepDiveStatus (audio_branch bd ct m s) = deepDiveStatus s"
  "sessionPromiseRef (audio_branch bd ct m s) = sessionPromiseRef s"
  by (simp_all add: audio_branch_def enqueue_unfold Let_def split: option.splits)

lemma toolCall_branch_report:
  assumes "functionCalls m = Some (\<lparr>fc_name = ''generateLearningReport'', fc_args = Some args\<rparr> # others)"
  shows "toolCall_branch rs m s =
     (stopDeepDive rs (s\<lparr>learningReport := Some args, deepDiveStatus := Complete\<rparr>), None)"
  using assms by (simp add: toolCall_branch_def)

lemma dd_onmessage_session:
  "\<exists>s'. dd_onmessage rs bd ct m s = toolCall_branch rs m s'
      \<and> sessionPromiseRef s' = sessionPromiseRef s"
proof -
  let ?s1 = "case inputTranscription m of
               Some input \<Rightarrow>
                 s\<lparr>deepDiveConversation :=
                     dd_applyTranscription User (transcription_text input)
                       (deepDiveConversation s)\<rparr>
             | None \<Rightarrow> s"
  let ?s2 = "case outputTranscription m of
               Some output \<Rightarrow>
                 ?s1\<lparr>deepDiveConversation :=
                     dd_applyTranscription Model (transcription_text output)
                       (deepDiveConversation ?s1)\<rparr>
             | None \<Rightarrow> ?s1"
  have 1: "dd_onmessage rs bd ct m s = toolCall_branch rs m (audio_branch bd ct m ?s2)"
    by (simp add: dd_onmessage_def Let_def)
  have 2: "sessionPromiseRef (audio_branch bd ct m ?s2) = sessionPromiseRef s"
    by (simp split: option.splits)
  from 1 2 show ?thesis by blast
qed

text \<open>
  Where the session was started from the report screen (\<open>Start New Session\<close>), the
  status in scope is \<open>complete\<close> and the tool call leaves the state complete.
\<close>

lemma tool_call_started_from_complete:
  assumes "functionCalls m = Some (\<lparr>fc_name = ''generateLearningReport'', fc_args = Some args\<rparr> # others)"
  shows "deepDiveStatus (fst (dd_onmessage Complete bd ct m s)) = Complete"
proof -
  obtain s' where "dd_onmessage Complete bd ct m s = toolCall_branch Complete m s'"
    using dd_onmessage_session by blast
  then show ?thesis
    by (simp add: toolCall_branch_report [OF assms] stopDeepDive_fields)
qed

text \<open>
  C5. Tool-call termination. The handler stores the arguments as the learning report,
  sets the status to \<open>complete\<close> and calls \<open>stopDeepDive\<close>, which requests the close
  and releases the resources. But \<open>stopDeepDive\<close> ends in
  \<open>if (deepDiveStatus !== 'complete') setDeepDiveStatus('idle')\<close>, and the
  \<open>deepDiveStatus\<close> it reads is the constant of a render, which the call of
  \<open>setDeepDiveStatus('complete')\<close> one line earlier cannot change. Unless the session
  was started from the report screen, that constant is not \<open>complete\<close>, and the last
  update of the status is \<open>idle\<close>.
\<close>

theorem tool_call_status_reverts:
  assumes "functionCalls m = Some (\<lparr>fc_name = ''generateLearningReport'', fc_args = Some args\<rparr> # others)"
    and "renderStatus \<noteq> Complete"
  shows "learningReport (fst (dd_onmessage renderStatus bd ct m s)) = Some args
     \<and> deepDiveStatus (fst (dd_onmessage renderStatus bd ct m s)) = Idle
     \<and> sessionPromiseRef (fst (dd_onmessage renderStatus bd ct m s)) = None
     \<and> (sessionPromiseRef s \<noteq> None \<longrightarrow>
          SessionCloseRequested \<in> set (effects (fst (dd_onmessage renderStatus bd ct m s))))
     \<and> snd (dd_onmessage renderStatus bd ct m s) = None"
proof -
  obtain s' where run: "dd_onmessage renderStatus bd ct m s = toolCall_branch renderStatus m s'"
    and session: "sessionPromiseRef s' = sessionPromiseRef s"
    using dd_onmessage_session by blast
  let ?s'' = "s'\<lparr>learningReport := Some args, deepDiveStatus := Complete\<rparr>"
  have out: "dd_onmessage renderStatus bd ct m s = (stopDeepDive renderStatus ?s'', None)"
    by (simp add: run toolCall_branch_report [OF assms(1)])
  have "sessionPromiseRef s \<noteq> None \<longrightarrow>
      SessionCloseRequested \<in> set (effects (stopDeepDive renderStatus ?s''))"
    using session by (auto intro: stopDeepDive_requests_close)
  then show ?thesis
    using assms(2) by (simp add: out stopDeepDive_fields)
qed

theorem tool_call_status_reverts_witness:
  "snd (startDeepDive True (Some [0]) dd_initial) = Idle
   \<and> sessionPromiseRef dd_open_session = Some ()
   \<and> learningReport (fst (dd_onmessage Idle (\<lambda>b. 1) 0
        (report_message [(''strengths'', ''a''), (''weaknesses'', ''b''), (''plan'', ''c'')])
        dd_open_session))
       = Some [(''strengths'', ''a''), (''weaknesses'', ''b''), (''plan'', ''c'')]
   \<and> deepDiveStatus (fst (dd_onmessage Idle (\<lambda>b. 1) 0
        (report_message [(''strengths'', ''a''), (''weaknesses'', ''b''), (''plan'', ''c'')])
        dd_open_session)) = Idle
   \<and> SessionCloseRequested \<in> set (effects (fst (dd_onmessage Idle (\<lambda>b. 1) 0
        (report_message [(''strengths'', ''a''), (''weaknesses'', ''b''), (''plan'', ''c'')])
        dd_open_session)))"
proof -
  let ?args = "[(''strengths'', ''a''), (''weaknesses'', ''b''), (''plan'', ''c'')]"
  have click: "snd (startDeepDive True (Some [0]) dd_initial) = Idle"
    by (simp add: startDeepDive_def dd_initial_def)
  have calls: "functionCalls (report_message ?args)
      = Some (\<lparr>fc_name = ''generateLearningReport'', fc_args = Some ?args\<rparr> # [])"
    by (simp add: report_message_def)
  have status: "Idle \<noteq> Complete"
    by simp
  have session: "sessionPromiseRef dd_open_session = Some ()"
    by (simp add: dd_open_session_eq)
  from tool_call_status_reverts [OF calls status, of "\<lambda>b. 1" 0 dd_open_session] click session
  show ?thesis
    by simp
qed

lemma dd_ended_session_eq:
  "dd_ended_session =
     \<lparr>sessionPromiseRef = None, inputAudioContextRef = Some Closed,
      outputAudioContextRef = Some Closed, scriptProcessorRef = Some (),
      mediaStreamSourceRef = Some (), mediaStreamRef = Some [0],
      nextStartTimeRef = 0, audioSourcesRef = [], sourcesCreated = 0,
      effects = [SetClear, SessionCloseRequested, TrackStop 0, ScriptProcessorDisconnect,
                 MediaStreamSourceDisconnect, InputContextClose, OutputContextClose],
      deepDiveStatus = Idle, deepDiveConversation = [], learningReport = None,
      deepDiveError = None\<rparr>"
  by (simp add: dd_ended_session_def dd_open_session_eq stopDeepDive_def
      handleDeepDiveSessionEnded_def release_resources_def log_effects_def)

text \<open>
  C6, as the claim states it, fails for the deep dive. After \<open>End Call\<close> the session
  handle is gone and the status is idle, but the refs still hold the stream and the
  nodes; \<open>stopDeepDive\<close> on that state stops the track and disconnects the two nodes
  once more.
\<close>

theorem stop_when_idle_counterexample:
  "sessionPromiseRef dd_ended_session = None
   \<and> deepDiveStatus dd_ended_session = Idle
   \<and> effects (stopDeepDive Idle dd_ended_session)
       = effects dd_ended_session
         @ [TrackStop 0, ScriptProcessorDisconnect, MediaStreamSourceDisconnect]
   \<and> stopDeepDive Idle dd_ended_session \<noteq> dd_ended_session"
proof -
  note ended = dd_ended_session_eq
  have again: "effects (stopDeepDive Idle dd_ended_session)
       = effects dd_ended_session
         @ [TrackStop 0, ScriptProcessorDisconnect, MediaStreamSourceDisconnect]"
    by (simp add: effects_stopDeepDive effects_release_resources ended)
  then have "effects (stopDeepDive Idle dd_ended_session) \<noteq> effects dd_ended_session"
    by simp
  then have "stopDeepDive Idle dd_ended_session \<noteq> dd_ended_session"
    by metis
  with again show ?thesis
    by (simp add: ended)
qed

text \<open>
  C6, amended. With no session handle present, a stop requests no close of the
  connection and has no error outcome. \<open>stopSession\<close> of \<open>AudioTranscriber\<close> is then
  a no-op. \<open>stopDeepDive\<close> still runs the guarded release: for every ref that still
  holds a resource it repeats the operation (a stop per track, a disconnect per node, a
  close per context that is not closed), and it performs no operation when no ref holds
  one; on a freshly mounted component it changes nothing.
\<close>

theorem stop_when_idle:
  "(sessionPromiseRef a = None \<longrightarrow> stopSession a = a)
   \<and> (sessionPromiseRef v = None \<longrightarrow>
        effects (stopDeepDive rs v) =
          effects v
          @ (case mediaStreamRef v of Some tracks \<Rightarrow> map TrackStop tracks | None \<Rightarrow> [])
          @ (if scriptProcessorRef v \<noteq> None then [ScriptProcessorDisconnect] else [])
          @ (if mediaStreamSourceRef v \<noteq> None then [MediaStreamSourceDisconnect] else [])
          @ (if inputAudioContextRef v \<in> {None, Some Closed} then [] else [InputContextClose])
          @ (if outputAudioContextRef v \<in> {None, Some Closed} then [] else [OutputContextClose]))
   \<and> (sessionPromiseRef v = None \<and> mediaStreamRef v = None \<and> scriptProcessorRef v = None
        \<and> mediaStreamSourceRef v = None
        \<and> inputAudioContextRef v \<in> {None, Some Closed}
        \<and> outputAudioContextRef v \<in> {None, Some Closed} \<longrightarrow>
        effects (stopDeepDive rs v) = effects v)
   \<and> stopDeepDive rs dd_initial = dd_initial"
proof (intro conjI impI)
  assume "sessionPromiseRef a = None"
  then show "stopSession a = a"
    by (simp add: stopSession_def)
next
  assume "sessionPromiseRef v = None"
  then show "effects (stopDeepDive rs v) =
          effects v
          @ (case mediaStreamRef v of Some tracks \<Rightarrow> map TrackStop tracks | None \<Rightarrow> [])
          @ (if scriptProcessorRef v \<noteq> None then [ScriptProcessorDisconnect] else [])
          @ (if mediaStreamSourceRef v \<noteq> None then [MediaStreamSourceDisconnect] else [])
          @ (if inputAudioContextRef v \<in> {None, Some Closed} then [] else [InputContextClose])
          @ (if outputAudioContextRef v \<in> {None, Some Closed} then [] else [OutputContextClose])"
    by (simp only: effects_stopDeepDive effects_release_resources simp_thms if_False)
next
  assume "sessionPromiseRef v = None \<and> mediaStreamRef v = None \<and> scriptProcessorRef v = None
        \<and> mediaStreamSourceRef v = None
        \<and> inputAudioContextRef v \<in> {None, Some Closed}
        \<and> outputAudioContextRef v \<in> {None, Some Closed}"
  then show "effects (stopDeepDive rs v) = effects v"
    by (simp add: effects_stopDeepDive effects_release_resources)
next
  show "stopDeepDive rs dd_initial = dd_initial"
    by (simp add: stopDeepDive_def handleDeepDiveSessionEnded_def release_resources_def
        dd_initial_def Let_def)
qed


theorem stop_when_idle_witness:
  "stopSession (at_initial None) = at_initial None
   \<and> effects (stopDeepDive Idle dd_ended_session)
       = [SetClear, SessionCloseRequested, TrackStop 0, ScriptProcessorDisconnect,
          MediaStreamSourceDisconnect, InputContextClose, OutputContextClose,
          TrackStop 0, ScriptProcessorDisconnect, MediaStreamSourceDisconnect]
   \<and> effects (stopDeepDive Active dd_initial) = []"
proof -
  have a: "sessionPromiseRef (at_initial None) = None"
    by (simp add: at_initial_def)
  have v: "sessionPromiseRef dd_ended_session = None"
    by (simp add: dd_ended_session_eq)
  have fresh: "sessionPromiseRef dd_initial = None \<and> mediaStreamRef dd_initial = None
      \<and> scriptProcessorRef dd_initial = None \<and> mediaStreamSourceRef dd_initial = None
      \<and> inputAudioContextRef dd_initial \<in> {None, Some Closed}
      \<and> outputAudioContextRef dd_initial \<in> {None, Some Closed}"
    by (simp add: dd_initial_def)
  from stop_when_idle [of "at_initial None" dd_ended_session Idle] a
  have 1: "stopSession (at_initial None) = at_initial None"
    by blast
  from stop_when_idle [of "at_initial None" dd_ended_session Idle] v
  have 2: "effects (stopDeepDive Idle dd_ended_session)
       = [SetClear, SessionCloseRequested, TrackStop 0, ScriptProcessorDisconnect,
          MediaStreamSourceDisconnect, InputContextClose, OutputContextClose,
          TrackStop 0, ScriptProcessorDisconnect, MediaStreamSourceDisconnect]"
    by (simp add: dd_ended_session_eq)
  from stop_when_idle [of "at_initial None" dd_initial Active] fresh
  have "effects (stopDeepDive Active dd_initial) = effects dd_initial"
    by blast
  then have 3: "effects (stopDeepDive Active dd_initial) = []"
    by (simp add: dd_initial_def)
  from 1 2 3 show ?thesis by blast
qed

end
